theory Spec2Isabelle
  imports Main
begin

section \<open>Python values: exceptions, strings, dictionaries\<close>

text \<open>
  The program is \<^verbatim>\<open>testcases/testcase1/models/parse_wrapped.py\<close>. Every exception the
  source can raise is a value. The source defines no exception class of its own; the names
  are those of the built-in exceptions that the statements raise:
  \<^item> \<open>StopIteration\<close>: \<^verbatim>\<open>next(filter(...))\<close> on an exhausted iterator (no node of that name);
  \<^item> \<open>AttributeError\<close>: a method or attribute of \<^verbatim>\<open>None\<close>, after \<^verbatim>\<open>find\<close> found no child;
  \<^item> \<open>KeyError\<close>: \<^verbatim>\<open>attrib["string"]\<close> without that attribute;
  \<^item> \<open>IndexError\<close>: \<^verbatim>\<open>split('"')[1]\<close> on a string without a double quote;
  \<^item> \<open>ValueError\<close>: \<^verbatim>\<open>float(s)\<close> on a string that is no number, and the explicit
    \<^verbatim>\<open>raise ValueError\<close> of \<^verbatim>\<open>_make_var_name\<close>;
  \<^item> \<open>TypeError\<close>: \<^verbatim>\<open>'boptestRead' in None\<close>, for a variable without a name;
  \<^item> \<open>RecursionError\<close>: a call of \<^verbatim>\<open>_get_final_value\<close> beyond the depth of calls that the
    interpreter allows.
\<close>

datatype error = TypeError | AttributeError | KeyError | StopIteration | IndexError | ValueError
  | RecursionError

definition bindE :: "error + 'a \<Rightarrow> ('a \<Rightarrow> error + 'b) \<Rightarrow> error + 'b" where
  "bindE m f = (case m of Inl e \<Rightarrow> Inl e | Inr x \<Rightarrow> f x)"

abbreviation DQ :: char where "DQ \<equiv> CHR 0x22"
abbreviation TAB :: char where "TAB \<equiv> CHR 0x09"
abbreviation NL :: char where "NL \<equiv> CHR 0x0A"
abbreviation DOT :: char where "DOT \<equiv> CHR ''.''"

text \<open>\<^verbatim>\<open>p in s\<close> on strings: \<open>p\<close> occurs in \<open>s\<close> as a contiguous block.\<close>

fun py_in :: "string \<Rightarrow> string \<Rightarrow> bool" where
  "py_in p [] = (p = [])"
| "py_in p (c # s) = (take (length p) (c # s) = p \<or> py_in p s)"

text \<open>\<^verbatim>\<open>s.split(c)\<close> for a separator of one character: the fields between the separators,
  always at least one field.\<close>

fun split_from :: "char \<Rightarrow> string \<Rightarrow> string \<Rightarrow> string list" where
  "split_from c cur [] = [cur]"
| "split_from c cur (x # s) =
     (if x = c then cur # split_from c [] s else split_from c (cur @ [x]) s)"

definition py_split :: "char \<Rightarrow> string \<Rightarrow> string list" where
  "py_split c s = split_from c [] s"

text \<open>\<^verbatim>\<open>sep.join(xs)\<close>.\<close>

fun py_join :: "string \<Rightarrow> string list \<Rightarrow> string" where
  "py_join sep [] = []"
| "py_join sep [x] = x"
| "py_join sep (x # y # xs) = x @ sep @ py_join sep (y # xs)"

text \<open>\<^verbatim>\<open>xs[1]\<close>: the second element, or \<open>IndexError\<close>.\<close>

fun index1 :: "'a list \<Rightarrow> error + 'a" where
  "index1 (x # y # xs) = Inr y"
| "index1 xs = Inl IndexError"

text \<open>\<^verbatim>\<open>s.replace(old, new)\<close> for \<open>old\<close> of one character.\<close>

fun py_replace :: "char \<Rightarrow> string \<Rightarrow> string \<Rightarrow> string" where
  "py_replace old new [] = []"
| "py_replace old new (c # s) = (if c = old then new else [c]) @ py_replace old new s"

text \<open>
  A Python \<^verbatim>\<open>dict\<close> keeps its keys in insertion order: an association list. \<^verbatim>\<open>d[k] = v\<close>
  replaces the value of a key that is present, where it stands, and appends a new key.
  \<^verbatim>\<open>d[k]\<close> raises \<open>KeyError\<close> for a key that is absent.
\<close>

type_synonym ('k, 'v) dict = "('k \<times> 'v) list"

fun dict_set :: "'k \<Rightarrow> 'v \<Rightarrow> ('k, 'v) dict \<Rightarrow> ('k, 'v) dict" where
  "dict_set k v [] = [(k, v)]"
| "dict_set k v (p # d) = (if fst p = k then (k, v) # d else p # dict_set k v d)"

definition dict_get :: "('k, 'v) dict \<Rightarrow> 'k \<Rightarrow> error + 'v" where
  "dict_get d k = (case map_of d k of None \<Rightarrow> Inl KeyError | Some v \<Rightarrow> Inr v)"

definition keys :: "('k, 'v) dict \<Rightarrow> 'k list" where
  "keys d = map fst d"

section \<open>The element tree\<close>

text \<open>
  An \<^verbatim>\<open>xml.etree.ElementTree.Element\<close>: its tag, its attributes and its children. The
  tree that \<^verbatim>\<open>ET.parse\<close> returns is given by its root element.
\<close>

datatype element = Element (tag: string) (attrib: "(string, string) dict") (children: "element list")

text \<open>\<^verbatim>\<open>e.iter()\<close>: the element and all its descendants, in document order.\<close>

fun iter :: "element \<Rightarrow> element list" where
  "iter (Element t a cs) = Element t a cs # concat (map iter cs)"

text \<open>\<^verbatim>\<open>tree.iter(t)\<close>: the elements of that tag, in document order.\<close>

definition iter_tag :: "element \<Rightarrow> string \<Rightarrow> element list" where
  "iter_tag e t = filter (\<lambda>x. tag x = t) (iter e)"

text \<open>\<^verbatim>\<open>e.find(t)\<close>: the first child of that tag, or \<^verbatim>\<open>None\<close>.\<close>

definition find_el :: "element \<Rightarrow> string \<Rightarrow> element option" where
  "find_el e t = find (\<lambda>x. tag x = t) (children e)"

text \<open>\<^verbatim>\<open>e.find(t)\<close> followed by an access to the result: \<open>AttributeError\<close> on \<^verbatim>\<open>None\<close>.\<close>

definition found :: "element option \<Rightarrow> error + element" where
  "found r = (case r of None \<Rightarrow> Inl AttributeError | Some x \<Rightarrow> Inr x)"

text \<open>\<^verbatim>\<open>x.attrib.get("name", "")\<close>.\<close>

definition get_name :: "element \<Rightarrow> string" where
  "get_name x = (case map_of (attrib x) ''name'' of None \<Rightarrow> [] | Some n \<Rightarrow> n)"

text \<open>\<^verbatim>\<open>next(filter(lambda x: x.attrib.get("name", "") == var, tree.getroot().iter()))\<close>.\<close>

definition node_named :: "element \<Rightarrow> string \<Rightarrow> error + element" where
  "node_named tree var =
     (case find (\<lambda>x. get_name x = var) (iter tree) of
        None \<Rightarrow> Inl StopIteration
      | Some x \<Rightarrow> Inr x)"

text \<open>\<^verbatim>\<open>e.find("bindExpression").attrib["string"]\<close>.\<close>

definition bind_string :: "element \<Rightarrow> error + string" where
  "bind_string e = bindE (found (find_el e ''bindExpression'')) (\<lambda>b. dict_get (attrib b) ''string'')"

text \<open>\<^verbatim>\<open>e.find('attributesValues').find(t).attrib['string']\<close>.\<close>

definition attr_value_string :: "element \<Rightarrow> string \<Rightarrow> error + string" where
  "attr_value_string e t =
     bindE (found (find_el e ''attributesValues'')) (\<lambda>av.
     bindE (found (find_el av t)) (\<lambda>u. dict_get (attrib u) ''string''))"

section \<open>The name mangler\<close>

text \<open>\<^verbatim>\<open>_make_var_name(block, style, description='', attribute='')\<close>.\<close>

definition make_var_name :: "string \<Rightarrow> string \<Rightarrow> string \<Rightarrow> string \<Rightarrow> error + string" where
  "make_var_name block style description attribute =
     (let name = py_replace DOT ''_'' block;
          description = (if description = [] then [] else '' '' @ [DQ] @ description @ [DQ])
      in if style = ''input_signal'' then Inr (name @ ''_u'' @ attribute @ description)
         else if style = ''input_activate'' then Inr (name @ ''_activate'' @ description)
         else if style = ''output'' then Inr (name @ ''_y'' @ attribute @ description)
         else Inl ValueError)"

section \<open>Alias resolution\<close>

text \<open>
  Lines 159 and 160 of \<^verbatim>\<open>_get_final_value\<close>, one alias indirection: the node of that
  name, and the \<^verbatim>\<open>string\<close> attribute of its \<^verbatim>\<open>bindExpression\<close> child.
\<close>

definition alias_hop :: "element \<Rightarrow> string \<Rightarrow> error + string" where
  "alias_hop tree var = bindE (node_named tree var) bind_string"

text \<open>
  \<^verbatim>\<open>_get_final_value(tree, var)\<close>. The function calls itself once for every alias, and
  every call takes a frame of the interpreter's stack, whose depth is bounded
  (\<^verbatim>\<open>sys.getrecursionlimit()\<close>, 1000 unless it is changed): a call beyond the bound raises
  \<open>RecursionError\<close>. Neither the bound nor the depth of the stack at the first call is in
  the source, so the model takes as a parameter \<open>limit\<close> the number of nested calls of
  \<^verbatim>\<open>_get_final_value\<close> that the interpreter allows where \<^verbatim>\<open>_process_KPI\<close> calls it. With
  the bound the recursion always ends, also on a cycle of aliases.
\<close>

fun get_final_value :: "nat \<Rightarrow> element \<Rightarrow> string \<Rightarrow> error + string" where
  "get_final_value 0 tree var = Inl RecursionError"
| "get_final_value (Suc limit) tree var =
     (case alias_hop tree var of
        Inl e \<Rightarrow> Inl e
      | Inr s \<Rightarrow>
          if py_in [DQ] s then index1 (py_split DQ s)
          else get_final_value limit tree s)"

section \<open>Classification and extraction\<close>

definition READ :: int where "READ = 0"
definition OVERWRITE :: int where "OVERWRITE = 1"
definition KPI :: int where "KPI = 2"

text \<open>
  The record of one instance, \<^verbatim>\<open>{'Unit': .., 'Description': .., 'Minimum': .., 'Maximum': ..}\<close>,
  and the dictionary \<^verbatim>\<open>instances\<close> with its two keys. The type \<open>'f\<close> is Python's
  \<^verbatim>\<open>float\<close>; the two conversions the program uses are parameters of the model:
  \<open>float\<close> is \<^verbatim>\<open>float(s)\<close> (\<open>None\<close> where it raises \<open>ValueError\<close>) and \<open>repr\<close> is the
  text that \<^verbatim>\<open>str.format\<close> gives for a float.
\<close>

record 'f instance_record =
  Unit :: string
  Description :: string
  Minimum :: "'f option"
  Maximum :: "'f option"

record 'f instances =
  Overwrite :: "(string, 'f instance_record) dict"
  Read :: "(string, 'f instance_record) dict"

type_synonym signals = "(string, string list) dict"

definition py_float :: "(string \<Rightarrow> 'f option) \<Rightarrow> string \<Rightarrow> error + 'f" where
  "py_float float s = (case float s of None \<Rightarrow> Inl ValueError | Some x \<Rightarrow> Inr x)"

text \<open>\<^verbatim>\<open>".".join(instance.split('.')[:-1])\<close>.\<close>

definition basename_of :: "string \<Rightarrow> string" where
  "basename_of instance = py_join ''.'' (butlast (py_split DOT instance))"

text \<open>
  \<^verbatim>\<open>_process_readwrite\<close>, lines 136 to 151: everything before the assignment of line 152.
  These statements only read the tree. The result is the label, the basename and the
  record that line 152 stores.
\<close>

definition readwrite_record ::
  "(string \<Rightarrow> 'f option) \<Rightarrow> element \<Rightarrow> string \<Rightarrow> int \<Rightarrow> error + (string \<times> string \<times> 'f instance_record)" where
  "readwrite_record float tree instance flag =
     (let label = (if flag = READ then ''Read'' else ''Overwrite'');
          basename = basename_of instance;
          signal_suffix = (if flag = READ then ''.y'' else ''.u'')
      in bindE (node_named tree (basename @ signal_suffix)) (\<lambda>node.
         bindE (attr_value_string node ''unit'') (\<lambda>us.
         bindE (index1 (py_split DQ us)) (\<lambda>unit.
         bindE (node_named tree (basename @ ''.description'')) (\<lambda>dnode.
         bindE (bind_string dnode) (\<lambda>ds.
         bindE (index1 (py_split DQ ds)) (\<lambda>description.
         bindE (if flag = READ then Inr (None, None)
                else bindE (attr_value_string node ''minValue'') (\<lambda>ms.
                     bindE (py_float float ms) (\<lambda>mini.
                     bindE (attr_value_string node ''maxValue'') (\<lambda>xs.
                     bindE (py_float float xs) (\<lambda>maxi.
                     Inr (Some mini, Some maxi)))))) (\<lambda>(mini, maxi).
         Inr (label, basename,
              \<lparr>Unit = unit, Description = description, Minimum = mini, Maximum = maxi\<rparr>)))))))))"

text \<open>\<^verbatim>\<open>instances[label][basename] = r\<close>, for the two labels the program uses.\<close>

definition instances_set :: "'f instances \<Rightarrow> string \<Rightarrow> string \<Rightarrow> 'f instance_record \<Rightarrow> 'f instances" where
  "instances_set instances label basename r =
     (if label = ''Read'' then instances\<lparr>Read := dict_set basename r (Read instances)\<rparr>
      else instances\<lparr>Overwrite := dict_set basename r (Overwrite instances)\<rparr>)"

text \<open>\<^verbatim>\<open>instances[label]\<close>.\<close>

definition instances_get :: "'f instances \<Rightarrow> string \<Rightarrow> (string, 'f instance_record) dict" where
  "instances_get instances label = (if label = ''Read'' then Read instances else Overwrite instances)"

text \<open>
  \<^verbatim>\<open>_process_readwrite(tree, instance, instances, flag)\<close> mutates \<^verbatim>\<open>instances\<close> and may
  raise: the result is the dictionary as the call leaves it, and the exception raised, if
  any.
\<close>

definition process_readwrite ::
  "(string \<Rightarrow> 'f option) \<Rightarrow> element \<Rightarrow> string \<Rightarrow> 'f instances \<Rightarrow> int \<Rightarrow> 'f instances \<times> error option" where
  "process_readwrite float tree instance instances flag =
     (case readwrite_record float tree instance flag of
        Inl e \<Rightarrow> (instances, Some e)
      | Inr (label, basename, r) \<Rightarrow> (instances_set instances label basename r, None))"

definition zone_types :: "string list" where
  "zone_types = [''AirZoneTemperature'', ''RadiativeZoneTemperature'',
     ''OperativeZoneTemperature'', ''RelativeHumidity'', ''CO2Concentration'']"

text \<open>Lines 122 to 129 of \<^verbatim>\<open>_process_KPI\<close>: the key of the signal group.\<close>

definition signal_key :: "nat \<Rightarrow> element \<Rightarrow> element \<Rightarrow> string \<Rightarrow> error + string" where
  "signal_key limit tree var instance =
     (case bind_string var of
        Inl e \<Rightarrow> Inl e
      | Inr s \<Rightarrow>
          (let signal_type = last (py_split DOT s);
               basename = basename_of instance
           in if signal_type \<in> set zone_types
              then (case get_final_value limit tree (basename @ ''.zone'') of
                      Inl e \<Rightarrow> Inl e
                    | Inr z \<Rightarrow> Inr (signal_type @ ''['' @ z @ '']''))
              else Inr signal_type))"

text \<open>
  \<^verbatim>\<open>_process_KPI(tree, var, signals, instance)\<close> mutates \<^verbatim>\<open>signals\<close>: the dictionary as the
  call leaves it and the exception raised, if any.
\<close>

definition process_KPI :: "nat \<Rightarrow> element \<Rightarrow> element \<Rightarrow> signals \<Rightarrow> string \<Rightarrow> signals \<times> error option" where
  "process_KPI limit tree var signals instance =
     (case signal_key limit tree var instance of
        Inl e \<Rightarrow> (signals, Some e)
      | Inr signal_type \<Rightarrow>
          (case map_of signals signal_type of
             Some vs \<Rightarrow>
               (case make_var_name (basename_of instance) ''output'' [] [] of
                  Inl e \<Rightarrow> (signals, Some e)
                | Inr v \<Rightarrow> (dict_set signal_type (vs @ [v]) signals, None))
           | None \<Rightarrow>
               (case make_var_name (basename_of instance) ''output'' [] [] of
                  Inl e \<Rightarrow> (signals, Some e)
                | Inr v \<Rightarrow> (dict_set signal_type [v] signals, None))))"

text \<open>
  The body of the loop of \<^verbatim>\<open>parse_XML\<close>, lines 35 to 48, on the pair of \<^verbatim>\<open>instances\<close> and
  \<^verbatim>\<open>signals\<close>: the pair as the body leaves it and the exception raised, if any.
\<close>

definition parse_var ::
  "nat \<Rightarrow> (string \<Rightarrow> 'f option) \<Rightarrow> element \<Rightarrow> element \<Rightarrow> 'f instances \<times> signals
     \<Rightarrow> ('f instances \<times> signals) \<times> error option" where
  "parse_var limit float tree var st =
     (case map_of (attrib var) ''name'' of
        None \<Rightarrow> (st, Some TypeError)
      | Some name \<Rightarrow>
          (let flag = (if py_in ''boptestRead'' name then Some READ
                       else if py_in ''boptestOverwrite'' name then Some OVERWRITE
                       else if py_in ''KPIs'' name then Some KPI
                       else None)
           in case flag of
                None \<Rightarrow> (st, None)
              | Some fl \<Rightarrow>
                  if fl = KPI
                  then (case process_KPI limit tree var (snd st) name of
                          (signals, exc) \<Rightarrow> ((fst st, signals), exc))
                  else (case process_readwrite float tree name (fst st) fl of
                          (instances, exc) \<Rightarrow> ((instances, snd st), exc))))"

text \<open>The loop of \<^verbatim>\<open>parse_XML\<close>: the first exception ends it.\<close>

fun parse_vars ::
  "nat \<Rightarrow> (string \<Rightarrow> 'f option) \<Rightarrow> element \<Rightarrow> element list \<Rightarrow> 'f instances \<times> signals
     \<Rightarrow> error + 'f instances \<times> signals" where
  "parse_vars limit float tree [] st = Inr st"
| "parse_vars limit float tree (var # vars) st =
     (case parse_var limit float tree var st of
        (st', Some e) \<Rightarrow> Inl e
      | (st', None) \<Rightarrow> parse_vars limit float tree vars st')"

text \<open>\<^verbatim>\<open>parse_XML\<close>, on the tree that \<^verbatim>\<open>ET.parse(path)\<close> returned.\<close>

definition parse_XML :: "nat \<Rightarrow> (string \<Rightarrow> 'f option) \<Rightarrow> element \<Rightarrow> error + 'f instances \<times> signals" where
  "parse_XML limit float tree =
     parse_vars limit float tree (iter_tag tree ''variable'') (\<lparr>Overwrite = [], Read = []\<rparr>, [])"

section \<open>The wrapper synthesizer\<close>

text \<open>A \<^verbatim>\<open>for\<close> loop whose body may raise: the first exception ends the loop.\<close>

fun for_each :: "('a \<Rightarrow> 's \<Rightarrow> error + 's) \<Rightarrow> 'a list \<Rightarrow> 's \<Rightarrow> error + 's" where
  "for_each body [] st = Inr st"
| "for_each body (x # xs) st = bindE (body x st) (for_each body xs)"

text \<open>\<^verbatim>\<open>'{0}'.format(v)\<close> for a value that is a float or \<^verbatim>\<open>None\<close>.\<close>

definition format_float :: "('f \<Rightarrow> string) \<Rightarrow> 'f option \<Rightarrow> string" where
  "format_float repr v = (case v of None \<Rightarrow> ''None'' | Some x \<Rightarrow> repr x)"

text \<open>The local variables of \<^verbatim>\<open>create_wrapper\<close> that its loops change.\<close>

record wrapper_state =
  model_code :: "string list"
  input_signals_w_info :: "(string, string) dict"
  input_signals_wo_info :: "(string, string) dict"
  input_activate_w_info :: "(string, string) dict"
  input_activate_wo_info :: "(string, string) dict"

text \<open>The body of the first loop, lines 87 to 96.\<close>

definition overwrite_block :: "('f \<Rightarrow> string) \<Rightarrow> 'f instances \<Rightarrow> string \<Rightarrow> wrapper_state \<Rightarrow> error + wrapper_state" where
  "overwrite_block repr instances block st =
     bindE (dict_get (Overwrite instances) block) (\<lambda>r.
     bindE (make_var_name block ''input_signal'' (Description r)
              (''(unit='' @ [DQ] @ Unit r @ [DQ] @ '', min='' @ format_float repr (Minimum r)
                 @ '', max='' @ format_float repr (Maximum r) @ '')'')) (\<lambda>sw.
     bindE (make_var_name block ''input_signal'' [] []) (\<lambda>swo.
     bindE (make_var_name block ''input_activate'' (''Activation for '' @ Description r) []) (\<lambda>aw.
     bindE (make_var_name block ''input_activate'' [] []) (\<lambda>awo.
     (let st1 = st\<lparr>input_signals_w_info := dict_set block sw (input_signals_w_info st),
                     input_signals_wo_info := dict_set block swo (input_signals_wo_info st),
                     input_activate_w_info := dict_set block aw (input_activate_w_info st),
                     input_activate_wo_info := dict_set block awo (input_activate_wo_info st)\<rparr>
      in bindE (dict_get (input_signals_w_info st1) block) (\<lambda>s.
         bindE (dict_get (input_activate_w_info st1) block) (\<lambda>a.
         Inr (st1\<lparr>model_code := model_code st1 @
                [ [TAB] @ ''Modelica.Blocks.Interfaces.RealInput '' @ s @ '';'' @ [NL],
                 [TAB] @ ''Modelica.Blocks.Interfaces.BooleanInput '' @ a @ '';'' @ [NL] ]\<rparr>)))))))))"

text \<open>The body of the second loop, line 102, for the dictionary \<^verbatim>\<open>instances[i]\<close>.\<close>

definition output_block :: "(string, 'f instance_record) dict \<Rightarrow> string \<Rightarrow> wrapper_state \<Rightarrow> error + wrapper_state" where
  "output_block d block st =
     bindE (dict_get d block) (\<lambda>r.
     bindE (make_var_name block ''output'' [] (''(unit='' @ [DQ] @ Unit r @ [DQ] @ '')'')) (\<lambda>v.
     Inr (st\<lparr>model_code := model_code st @
            [ [TAB] @ ''Modelica.Blocks.Interfaces.RealOutput '' @ v @ '' = mod.'' @ block @ ''.y ''
               @ [DQ] @ Description r @ [DQ] @ '';'' @ [NL] ]\<rparr>)))"

text \<open>The body of the third loop, lines 109 to 113, on a pair of \<^verbatim>\<open>enumerate\<close>.\<close>

definition connect_block :: "'f instances \<Rightarrow> nat \<times> string \<Rightarrow> wrapper_state \<Rightarrow> error + wrapper_state" where
  "connect_block instances ib st =
     (case ib of (i, block) \<Rightarrow>
        bindE (dict_get (input_signals_wo_info st) block) (\<lambda>s.
        bindE (dict_get (input_activate_wo_info st) block) (\<lambda>a.
        Inr (st\<lparr>model_code := model_code st @
               [ [TAB, TAB] @ block @ ''(uExt(y='' @ s @ ''),activate(y='' @ a @ ''))'',
                (if int i = int (length (Overwrite instances)) - 1
                 then '') '' @ [DQ] @ ''Original model with overwrites'' @ [DQ] @ '';'' @ [NL]
                 else '','' @ [NL])]\<rparr>))))"

text \<open>
  \<^verbatim>\<open>create_wrapper(model_path, instances)\<close>. The result is the list of the warnings issued
  and the value returned: \<open>None\<close> is Python's \<^verbatim>\<open>None\<close>, \<open>Some text\<close> the wrapper's text.
\<close>

definition create_wrapper :: "('f \<Rightarrow> string) \<Rightarrow> string \<Rightarrow> 'f instances \<Rightarrow> error + (string list \<times> string option)" where
  "create_wrapper repr model_path instances =
     (let len_write_blocks = length (Overwrite instances);
          len_read_blocks = length (Read instances)
      in if len_write_blocks + len_read_blocks = 0
         then Inr ([''No signal exchange block instances found in model.  Exporting model as is.''], None)
         else
           (let model_name = ''wrapped'';
                st0 = \<lparr>model_code = [''model '' @ model_name @ '' '' @ [DQ] @ ''Wrapped model of ''
                                       @ model_path @ [DQ] @ [NL, TAB] @ ''// Input overwrite'' @ [NL] ],
                       input_signals_w_info = [], input_signals_wo_info = [],
                       input_activate_w_info = [], input_activate_wo_info = []\<rparr>
            in bindE (for_each (overwrite_block repr instances) (keys (Overwrite instances)) st0) (\<lambda>st1.
               bindE (for_each (output_block (Read instances)) (keys (Read instances))
                        (st1\<lparr>model_code := model_code st1 @ [ [TAB] @ ''// Out read'' @ [NL] ]\<rparr>)) (\<lambda>st2.
               bindE (for_each (output_block (Overwrite instances)) (keys (Overwrite instances)) st2) (\<lambda>st3.
               bindE (let st4 = st3\<lparr>model_code := model_code st3 @
                                   [ [TAB] @ ''// Original model'' @ [NL],
                                    [TAB] @ model_path @ '' mod('' @ [NL] ]\<rparr>
                      in if len_write_blocks \<noteq> 0
                         then for_each (connect_block instances)
                                (zip [0 ..< length (keys (Overwrite instances))] (keys (Overwrite instances))) st4
                         else Inr (st4\<lparr>model_code := model_code st4 @
                                ['') '' @ [DQ] @ ''Original model without overwrites'' @ [DQ] @ '';'' @ [NL] ]\<rparr>)) (\<lambda>st5.
               Inr ([], Some (concat (model_code st5 @ [''end '' @ model_name @ '';'' @ [NL] ])))))))))"

section \<open>Notions and inputs used in the statements\<close>

text \<open>The number of places of a text at which a pattern occurs.\<close>

fun starts_with :: "string \<Rightarrow> string \<Rightarrow> bool" where
  "starts_with [] s = True"
| "starts_with (p # ps) [] = False"
| "starts_with (p # ps) (c # s) = (if p = c then starts_with ps s else False)"

fun count_sub :: "string \<Rightarrow> string \<Rightarrow> nat" where
  "count_sub p [] = (if starts_with p [] then 1 else 0)"
| "count_sub p (c # s) = (if starts_with p (c # s) then Suc (count_sub p s) else count_sub p s)"

text \<open>The wrapper text of Scenario A.\<close>

definition scenario_A_text :: string where
  "scenario_A_text =
     ''model wrapped '' @ [DQ] @ ''Wrapped model of Plant'' @ [DQ] @ [NL, TAB]
     @ ''// Input overwrite'' @ [NL, TAB]
     @ ''Modelica.Blocks.Interfaces.RealInput sys_ctrl_u(unit='' @ [DQ] @ ''K'' @ [DQ]
     @ '', min=280.0, max=320.0) '' @ [DQ] @ ''setpoint'' @ [DQ] @ '';'' @ [NL, TAB]
     @ ''Modelica.Blocks.Interfaces.BooleanInput sys_ctrl_activate '' @ [DQ]
     @ ''Activation for setpoint'' @ [DQ] @ '';'' @ [NL, TAB]
     @ ''// Out read'' @ [NL, TAB]
     @ ''Modelica.Blocks.Interfaces.RealOutput sys_ctrl_y(unit='' @ [DQ] @ ''K'' @ [DQ]
     @ '') = mod.sys.ctrl.y '' @ [DQ] @ ''setpoint'' @ [DQ] @ '';'' @ [NL, TAB]
     @ ''// Original model'' @ [NL, TAB]
     @ ''Plant mod('' @ [NL, TAB, TAB]
     @ ''sys.ctrl(uExt(y=sys_ctrl_u),activate(y=sys_ctrl_activate))) '' @ [DQ]
     @ ''Original model with overwrites'' @ [DQ] @ '';'' @ [NL]
     @ ''end wrapped;'' @ [NL]"

text \<open>A tree with two KPI variables whose basenames differ only by a dot and an underscore.\<close>

definition collide_tree :: element where
  "collide_tree = Element ''dae'' [] [
     Element ''variable'' [(''name'', ''a.b.KPIs'')]
       [Element ''bindExpression'' [(''string'', ''Types.Power'')] [] ],
     Element ''variable'' [(''name'', ''a_b.KPIs'')]
       [Element ''bindExpression'' [(''string'', ''Types.Power'')] [] ] ]"

text \<open>A tree with a Read variable whose name also contains the KPI marker.\<close>

definition read_tree :: element where
  "read_tree = Element ''dae'' [] [
     Element ''variable'' [(''name'', ''s.T.KPIs_boptestRead'')] [],
     Element ''variable'' [(''name'', ''s.T.y'')]
       [Element ''attributesValues'' [] [Element ''unit'' [(''string'', [DQ] @ ''C'' @ [DQ])] [] ] ],
     Element ''variable'' [(''name'', ''s.T.description'')]
       [Element ''bindExpression'' [(''string'', [DQ] @ ''zone temp'' @ [DQ])] [] ] ]"





text \<open>
  The substring between the first pair of double quotes of a string; \<open>None\<close> for a string
  with fewer than two double quotes.
\<close>

definition quoted :: "string \<Rightarrow> string option" where
  "quoted s =
     (case dropWhile (\<lambda>c. c \<noteq> DQ) s of
        [] \<Rightarrow> None
      | q # t \<Rightarrow> if DQ \<in> set t then Some (takeWhile (\<lambda>c. c \<noteq> DQ) t) else None)"

text \<open>
  The text after the first double quote of a string, up to the next double quote or, when
  there is none, to the end of the string.
\<close>

definition after_quote :: "string \<Rightarrow> string" where
  "after_quote s =
     (case dropWhile (\<lambda>c. c \<noteq> DQ) s of [] \<Rightarrow> [] | q # t \<Rightarrow> takeWhile (\<lambda>c. c \<noteq> DQ) t)"


text \<open>
  A stand-in for \<^verbatim>\<open>float\<close> in the examples: a float is given by its text, and the texts
  of digits and points are the ones that parse.
\<close>

definition demo_float :: "string \<Rightarrow> string option" where
  "demo_float s = (if s \<noteq> [] \<and> set s \<subseteq> set ''0123456789.'' then Some s else None)"

text \<open>
  Example trees for a signal \<open>s.T\<close>: the signal node with the unit, minimum and maximum
  strings, and the description node.
\<close>

definition signal_node :: "string \<Rightarrow> string \<Rightarrow> string \<Rightarrow> string \<Rightarrow> element" where
  "signal_node suffix us ms xs =
     Element ''variable'' [(''name'', ''s.T'' @ suffix)]
       [Element ''attributesValues'' []
          [Element ''unit'' [(''string'', us)] [],
           Element ''minValue'' [(''string'', ms)] [],
           Element ''maxValue'' [(''string'', xs)] [] ] ]"

definition description_node :: "string \<Rightarrow> element" where
  "description_node ds =
     Element ''variable'' [(''name'', ''s.T.description'')]
       [Element ''bindExpression'' [(''string'', ds)] [] ]"

definition signal_tree :: "element list \<Rightarrow> element" where
  "signal_tree nodes = Element ''dae'' [] nodes"

abbreviation e0 :: "string instances" where "e0 \<equiv> \<lparr>Overwrite = [], Read = []\<rparr>"

definition overwrite_ok_tree :: element where
  "overwrite_ok_tree = signal_tree
     [signal_node ''.u'' ([DQ] @ ''K'' @ [DQ]) ''280.0'' ''320.0'',
      description_node ([DQ] @ ''setpoint'' @ [DQ])]"

definition read_ok_tree :: element where
  "read_ok_tree = signal_tree
     [signal_node ''.y'' ([DQ] @ ''C'' @ [DQ]) [] [],
      description_node ([DQ] @ ''zone temp'' @ [DQ])]"

definition empty_unit_tree :: element where
  "empty_unit_tree = signal_tree
     [signal_node ''.u'' [DQ, DQ] ''280.0'' ''320.0'',
      description_node ([DQ] @ ''setpoint'' @ [DQ])]"

definition open_quote_tree :: element where
  "open_quote_tree = signal_tree
     [signal_node ''.u'' ([DQ] @ ''K'') ''280.0'' ''320.0'',
      description_node ([DQ] @ ''setpoint'' @ [DQ])]"

text \<open>An Overwrite map that already has a record for \<open>s.T\<close>, between two other keys.\<close>

definition old_instances :: "string instances" where
  "old_instances =
     \<lparr>Overwrite =
        [(''a'', \<lparr>Unit = ''W'', Description = ''first'', Minimum = Some ''0'', Maximum = Some ''1''\<rparr>),
         (''s.T'', \<lparr>Unit = ''old'', Description = ''earlier'', Minimum = Some ''1'', Maximum = Some ''2''\<rparr>),
         (''z'', \<lparr>Unit = ''W'', Description = ''last'', Minimum = Some ''0'', Maximum = Some ''1''\<rparr>)],
      Read = []\<rparr>"

section \<open>Basic facts\<close>

lemma bindE_simps [simp]: "bindE (Inl e) f = Inl e" "bindE (Inr x) f = f x"
  by (simp_all add: bindE_def)

lemma take_eq_prefix: "take (length p) s = p \<longleftrightarrow> (\<exists>b. s = p @ b)"
proof
  assume "take (length p) s = p"
  then have "s = p @ drop (length p) s" by (metis append_take_drop_id)
  then show "\<exists>b. s = p @ b" ..
next
  assume "\<exists>b. s = p @ b"
  then show "take (length p) s = p" by auto
qed

lemma py_in_iff: "py_in p s \<longleftrightarrow> (\<exists>a b. s = a @ p @ b)"
proof (induction s)
  case Nil
  show ?case by auto
next
  case (Cons c s)
  have "(\<exists>a b. c # s = a @ p @ b) \<longleftrightarrow> (\<exists>b. c # s = p @ b) \<or> (\<exists>a b. s = a @ p @ b)"
  proof
    assume "\<exists>a b. c # s = a @ p @ b"
    then obtain a b where ab: "c # s = a @ p @ b" by blast
    show "(\<exists>b. c # s = p @ b) \<or> (\<exists>a b. s = a @ p @ b)"
    proof (cases a)
      case Nil
      with ab show ?thesis by auto
    next
      case (Cons x a')
      with ab have "s = a' @ p @ b" by simp
      then show ?thesis by blast
    qed
  next
    assume "(\<exists>b. c # s = p @ b) \<or> (\<exists>a b. s = a @ p @ b)"
    then show "\<exists>a b. c # s = a @ p @ b"
    proof
      assume "\<exists>b. c # s = p @ b"
      then obtain b where "c # s = [] @ p @ b" by auto
      then show ?thesis by blast
    next
      assume "\<exists>a b. s = a @ p @ b"
      then obtain a b where "c # s = (c # a) @ p @ b" by auto
      then show ?thesis by blast
    qed
  qed
  with Cons take_eq_prefix [of p "c # s"] show ?case by simp
qed


lemma split_from_no_sep: "c \<notin> set s \<Longrightarrow> split_from c cur s = [cur @ s]"
  by (induction s arbitrary: cur) auto

lemma split_from_sep:
  "c \<notin> set a \<Longrightarrow> split_from c cur (a @ c # b) = (cur @ a) # split_from c [] b"
  by (induction a arbitrary: cur) auto


lemma takeWhile_all_not: "c \<notin> set b \<Longrightarrow> takeWhile (\<lambda>x. x \<noteq> c) b = b"
  by (induction b) auto

lemma takeWhile_stop: "c \<notin> set m \<Longrightarrow> takeWhile (\<lambda>x. x \<noteq> c) (m @ c # r) = m"
  by (induction m) auto

lemma dropWhile_stop: "c \<notin> set a \<Longrightarrow> dropWhile (\<lambda>x. x \<noteq> c) (a @ c # b) = c # b"
  by (induction a) auto

lemma py_split_none: "c \<notin> set s \<Longrightarrow> py_split c s = [s]"
  by (simp add: py_split_def split_from_no_sep)

lemma py_split_sep: "c \<notin> set a \<Longrightarrow> py_split c (a @ c # b) = a # py_split c b"
  using split_from_sep [of c a "[]" b] by (simp add: py_split_def)

lemma index1_split_none: "c \<notin> set s \<Longrightarrow> index1 (py_split c s) = Inl IndexError"
  by (simp add: py_split_none)

lemma index1_split_one:
  "c \<notin> set a \<Longrightarrow> c \<notin> set b \<Longrightarrow> index1 (py_split c (a @ c # b)) = Inr b"
  by (simp add: py_split_sep py_split_none)

lemma index1_split_pair:
  "c \<notin> set a \<Longrightarrow> c \<notin> set m \<Longrightarrow> index1 (py_split c (a @ c # m @ c # r)) = Inr m"
  by (simp add: py_split_sep)

lemma index1_split_sep:
  assumes "c \<notin> set a"
  shows "index1 (py_split c (a @ c # b)) = Inr (takeWhile (\<lambda>x. x \<noteq> c) b)"
proof (cases "c \<in> set b")
  case False
  with assms show ?thesis by (simp add: index1_split_one takeWhile_all_not)
next
  case True
  then obtain m r where b: "b = m @ c # r" and m: "c \<notin> set m"
    by (auto dest: split_list_first)
  show ?thesis unfolding b using assms m by (simp add: index1_split_pair takeWhile_stop)
qed

lemma py_replace_map: "py_replace old [new] s = map (\<lambda>c. if c = old then new else c) s"
  by (induction s) auto

lemma map_of_dict_set: "map_of (dict_set k v d) = (map_of d)(k \<mapsto> v)"
  by (induction d) (auto simp: fun_eq_iff)

lemma keys_dict_set:
  "keys (dict_set k v d) = (if k \<in> set (keys d) then keys d else keys d @ [k])"
  by (induction d) (auto simp: keys_def)

lemma distinct_dict_set: "distinct (keys d) \<Longrightarrow> distinct (keys (dict_set k v d))"
  by (simp add: keys_dict_set)

lemma dict_get_dict_set [simp]: "dict_get (dict_set k v d) k = Inr v"
  by (simp add: dict_get_def map_of_dict_set)

section \<open>Classification and KPI signals: properties\<close>

lemma instances_set_other:
  "Overwrite (instances_set ins ''Read'' b r) = Overwrite ins"
  "Read (instances_set ins ''Overwrite'' b r) = Read ins"
  by (simp_all add: instances_set_def)

lemma readwrite_record_label:
  "readwrite_record float tree name flag = Inr (label, b, r) \<Longrightarrow>
     label = (if flag = READ then ''Read'' else ''Overwrite'') \<and> b = basename_of name"
  by (auto simp: readwrite_record_def Let_def bindE_def split: sum.splits if_splits prod.splits)

lemma process_readwrite_other:
  "Overwrite (fst (process_readwrite float tree name ins READ)) = Overwrite ins"
  "Read (fst (process_readwrite float tree name ins OVERWRITE)) = Read ins"
  by (auto simp: process_readwrite_def instances_set_def OVERWRITE_def READ_def
      split: sum.splits dest!: readwrite_record_label)






text \<open>
  Claim C1. For a variable node with a name attribute, the body of the loop of \<^verbatim>\<open>parse_XML\<close>
  tests the markers on the name in this order: if the name contains \<open>boptestRead\<close> the
  variable is processed as Read; otherwise, if it contains \<open>boptestOverwrite\<close>, as
  Overwrite; otherwise, if it contains \<open>KPIs\<close>, as KPI; otherwise both maps and the
  signal groups are unchanged and the loop goes on. A name with several markers gets the
  first role only. Processing as Read leaves the Overwrite map as it is, processing as
  Overwrite the Read map, and processing as KPI both.
\<close>

theorem classification_precedence:
  assumes "map_of (attrib var) ''name'' = Some name"
  shows "parse_var limit float tree var (instances, signals) =
     (if (\<exists>a b. name = a @ ''boptestRead'' @ b)
      then (case process_readwrite float tree name instances READ of
              (i, exc) \<Rightarrow> ((i, signals), exc))
      else if (\<exists>a b. name = a @ ''boptestOverwrite'' @ b)
      then (case process_readwrite float tree name instances OVERWRITE of
              (i, exc) \<Rightarrow> ((i, signals), exc))
      else if (\<exists>a b. name = a @ ''KPIs'' @ b)
      then (case process_KPI limit tree var signals name of
              (s, exc) \<Rightarrow> ((instances, s), exc))
      else ((instances, signals), None)) \<and>
    Overwrite (fst (process_readwrite float tree name instances READ)) = Overwrite instances \<and>
    Read (fst (process_readwrite float tree name instances OVERWRITE)) = Read instances \<and>
    (\<not> (\<exists>a b. name = a @ ''boptestRead'' @ b) \<and> \<not> (\<exists>a b. name = a @ ''boptestOverwrite'' @ b)
       \<and> \<not> (\<exists>a b. name = a @ ''KPIs'' @ b) \<longrightarrow>
     parse_vars limit float tree (var # vars) (instances, signals)
       = parse_vars limit float tree vars (instances, signals))"
proof -
  have 1: "parse_var limit float tree var (instances, signals) =
     (if (\<exists>a b. name = a @ ''boptestRead'' @ b)
      then (case process_readwrite float tree name instances READ of
              (i, exc) \<Rightarrow> ((i, signals), exc))
      else if (\<exists>a b. name = a @ ''boptestOverwrite'' @ b)
      then (case process_readwrite float tree name instances OVERWRITE of
              (i, exc) \<Rightarrow> ((i, signals), exc))
      else if (\<exists>a b. name = a @ ''KPIs'' @ b)
      then (case process_KPI limit tree var signals name of
              (s, exc) \<Rightarrow> ((instances, s), exc))
      else ((instances, signals), None))"
    unfolding parse_var_def py_in_iff assms
    by (simp add: READ_def OVERWRITE_def KPI_def)
  show ?thesis
    unfolding 1 [symmetric] using 1
    by (auto simp: process_readwrite_other)
qed


theorem classification_precedence_witness:
  "map_of (attrib (Element ''variable'' [(''name'', ''s.T.KPIs_boptestRead'')] [])) ''name''
     = Some ''s.T.KPIs_boptestRead'' \<and>
   parse_var 1000 Some read_tree (Element ''variable'' [(''name'', ''s.T.KPIs_boptestRead'')] [])
     (\<lparr>Overwrite = [], Read = []\<rparr>, [])
     = ((\<lparr>Overwrite = [],
          Read = [(''s.T'', \<lparr>Unit = ''C'', Description = ''zone temp'',
                             Minimum = None :: string option, Maximum = None\<rparr>)]\<rparr>, []), None)"
proof -
  have n: "map_of (attrib (Element ''variable'' [(''name'', ''s.T.KPIs_boptestRead'')] [])) ''name''
     = Some ''s.T.KPIs_boptestRead''"
    by simp
  have ex: "\<exists>a b. ''s.T.KPIs_boptestRead'' = a @ ''boptestRead'' @ b"
    unfolding py_in_iff [symmetric] by simp
  have pr: "process_readwrite Some read_tree ''s.T.KPIs_boptestRead'' \<lparr>Overwrite = [], Read = []\<rparr> READ
     = (\<lparr>Overwrite = [],
         Read = [(''s.T'', \<lparr>Unit = ''C'', Description = ''zone temp'',
                            Minimum = None :: string option, Maximum = None\<rparr>)]\<rparr>, None)"
    by (simp add: process_readwrite_def readwrite_record_def READ_def basename_of_def py_split_def
        node_named_def get_name_def read_tree_def attr_value_string_def bind_string_def find_el_def found_def
        dict_get_def instances_set_def)
  from classification_precedence [OF n, of 1000 Some read_tree "\<lparr>Overwrite = [], Read = []\<rparr>" "[]" "[]"]
  have "parse_var 1000 Some read_tree (Element ''variable'' [(''name'', ''s.T.KPIs_boptestRead'')] [])
     (\<lparr>Overwrite = [], Read = []\<rparr>, [])
     = (case process_readwrite Some read_tree ''s.T.KPIs_boptestRead'' \<lparr>Overwrite = [], Read = []\<rparr> READ of
              (i, exc) \<Rightarrow> ((i, []), exc))"
    using ex by (simp only: if_True) 
  then show ?thesis using n by (simp only: pr prod.case)
qed



section \<open>Alias resolution: properties\<close>

lemma quoted_pair:
  "DQ \<notin> set a \<Longrightarrow> DQ \<notin> set m \<Longrightarrow> quoted (a @ DQ # m @ DQ # r) = Some m"
  by (simp add: quoted_def dropWhile_stop takeWhile_stop)

lemma quoted_Some:
  assumes "quoted s = Some m"
  shows "\<exists>a r. s = a @ DQ # m @ DQ # r \<and> DQ \<notin> set a \<and> DQ \<notin> set m"
proof (cases "DQ \<in> set s")
  case False
  then have "dropWhile (\<lambda>c. c \<noteq> DQ) s = []" by (induction s) auto
  with assms show ?thesis by (simp add: quoted_def)
next
  case True
  then obtain a b where s: "s = a @ DQ # b" and a: "DQ \<notin> set a"
    by (auto dest: split_list_first)
  with assms have b: "DQ \<in> set b" and m: "m = takeWhile (\<lambda>c. c \<noteq> DQ) b"
    by (auto simp: quoted_def dropWhile_stop split: if_splits)
  from b obtain m' r where b': "b = m' @ DQ # r" and m': "DQ \<notin> set m'"
    by (auto dest: split_list_first)
  with m have "m = m'" by (simp add: takeWhile_stop)
  with s a b' m' show ?thesis by blast
qed

lemma after_quote_sep: "DQ \<notin> set a \<Longrightarrow> after_quote (a @ DQ # b) = takeWhile (\<lambda>c. c \<noteq> DQ) b"
  by (simp add: after_quote_def dropWhile_stop)

lemma index1_split_quote:
  assumes "DQ \<in> set s"
  shows "index1 (py_split DQ s) = Inr (after_quote s)"
proof -
  from assms obtain a b where s: "s = a @ DQ # b" and a: "DQ \<notin> set a"
    by (auto dest: split_list_first)
  show ?thesis unfolding s by (simp add: index1_split_sep [OF a] after_quote_sep [OF a])
qed

lemma after_quote_quoted:
  assumes "quoted s = Some m"
  shows "after_quote s = m"
proof -
  from quoted_Some [OF assms] obtain a r
    where s: "s = a @ DQ # m @ DQ # r" and a: "DQ \<notin> set a" and m: "DQ \<notin> set m"
    by blast
  show ?thesis unfolding s by (simp add: after_quote_sep [OF a] takeWhile_stop [OF m])
qed

lemma after_quote_one:
  "DQ \<notin> set a \<Longrightarrow> DQ \<notin> set b \<Longrightarrow> after_quote (a @ DQ # b) = b"
  by (simp add: after_quote_sep takeWhile_all_not)












section \<open>Extraction for Read and Overwrite: properties\<close>

lemma node_named_none:
  "(\<forall>x\<in>set (iter tree). get_name x \<noteq> var) \<Longrightarrow> node_named tree var = Inl StopIteration"
  by (simp add: node_named_def find_None_iff [THEN iffD2])

lemma process_readwrite_unchanged:
  "snd (process_readwrite float tree instance ins flag) \<noteq> None \<Longrightarrow>
   fst (process_readwrite float tree instance ins flag) = ins"
  by (auto simp: process_readwrite_def split: sum.splits)

lemma process_readwrite_error:
  "readwrite_record float tree instance flag = Inl e \<Longrightarrow>
   snd (process_readwrite float tree instance ins flag) = Some e"
  by (simp add: process_readwrite_def)

lemma rr_no_signal:
  "node_named tree (basename_of instance @ (if flag = READ then ''.y'' else ''.u'')) = Inl e \<Longrightarrow>
   readwrite_record float tree instance flag = Inl e"
  by (simp add: readwrite_record_def Let_def)

lemma rr_unit:
  assumes "node_named tree (basename_of instance @ (if flag = READ then ''.y'' else ''.u'')) = Inr node"
    and "attr_value_string node ''unit'' = Inr us"
  shows "readwrite_record float tree instance flag =
     bindE (index1 (py_split DQ us)) (\<lambda>unit.
     bindE (node_named tree (basename_of instance @ ''.description'')) (\<lambda>dnode.
     bindE (bind_string dnode) (\<lambda>ds.
     bindE (index1 (py_split DQ ds)) (\<lambda>description.
     bindE (if flag = READ then Inr (None, None)
            else bindE (attr_value_string node ''minValue'') (\<lambda>ms.
                 bindE (py_float float ms) (\<lambda>mini.
                 bindE (attr_value_string node ''maxValue'') (\<lambda>xs.
                 bindE (py_float float xs) (\<lambda>maxi.
                 Inr (Some mini, Some maxi)))))) (\<lambda>(mini, maxi).
     Inr (if flag = READ then ''Read'' else ''Overwrite'', basename_of instance,
          \<lparr>Unit = unit, Description = description, Minimum = mini, Maximum = maxi\<rparr>))))))"
  using assms by (simp add: readwrite_record_def Let_def)

lemma rr_description:
  assumes "node_named tree (basename_of instance @ (if flag = READ then ''.y'' else ''.u'')) = Inr node"
    and "attr_value_string node ''unit'' = Inr us" and "DQ \<in> set us"
    and "node_named tree (basename_of instance @ ''.description'') = Inr dnode"
    and "bind_string dnode = Inr ds" and "DQ \<in> set ds"
  shows "readwrite_record float tree instance flag =
     bindE (if flag = READ then Inr (None, None)
            else bindE (attr_value_string node ''minValue'') (\<lambda>ms.
                 bindE (py_float float ms) (\<lambda>mini.
                 bindE (attr_value_string node ''maxValue'') (\<lambda>xs.
                 bindE (py_float float xs) (\<lambda>maxi.
                 Inr (Some mini, Some maxi)))))) (\<lambda>(mini, maxi).
     Inr (if flag = READ then ''Read'' else ''Overwrite'', basename_of instance,
          \<lparr>Unit = after_quote us, Description = after_quote ds, Minimum = mini, Maximum = maxi\<rparr>))"
  unfolding rr_unit [OF assms(1,2)] using assms(3-6)
  by (simp add: index1_split_quote)

lemma bindE_Inr: "bindE m f = Inr y \<Longrightarrow> \<exists>x. m = Inr x \<and> f x = Inr y"
  by (cases m) simp_all

lemma index1_split_Inr:
  assumes "index1 (py_split DQ s) = Inr u"
  shows "DQ \<in> set s \<and> u = after_quote s"
proof (cases "DQ \<in> set s")
  case True
  with assms show ?thesis by (simp add: index1_split_quote)
next
  case False
  with assms show ?thesis by (simp add: index1_split_none)
qed

lemma py_float_Inr: "py_float float s = Inr x \<Longrightarrow> float s = Some x"
  by (simp add: py_float_def split: option.splits)

lemma readwrite_record_Inr:
  assumes "readwrite_record float tree instance flag = Inr (label, b, r)"
  shows "label = (if flag = READ then ''Read'' else ''Overwrite'') \<and> b = basename_of instance \<and>
    (\<exists>node us dnode ds.
       node_named tree (basename_of instance @ (if flag = READ then ''.y'' else ''.u'')) = Inr node \<and>
       attr_value_string node ''unit'' = Inr us \<and> DQ \<in> set us \<and>
       node_named tree (basename_of instance @ ''.description'') = Inr dnode \<and>
       bind_string dnode = Inr ds \<and> DQ \<in> set ds \<and>
       Unit r = after_quote us \<and> Description r = after_quote ds \<and>
       (if flag = READ then Minimum r = None \<and> Maximum r = None
        else \<exists>ms xs mn mx. attr_value_string node ''minValue'' = Inr ms \<and> float ms = Some mn \<and>
               attr_value_string node ''maxValue'' = Inr xs \<and> float xs = Some mx \<and>
               Minimum r = Some mn \<and> Maximum r = Some mx))"
proof -
  let ?sig = "basename_of instance @ (if flag = READ then ''.y'' else ''.u'')"
  obtain node where n: "node_named tree ?sig = Inr node"
    using assms by (cases "node_named tree ?sig") (simp_all add: rr_no_signal)
  obtain us where u: "attr_value_string node ''unit'' = Inr us"
    using assms n by (cases "attr_value_string node ''unit''") (simp_all add: readwrite_record_def Let_def)
  note 1 = assms [unfolded rr_unit [OF n u] ]
  from bindE_Inr [OF 1] obtain unit where iu: "index1 (py_split DQ us) = Inr unit"
    and 2: "bindE (node_named tree (basename_of instance @ ''.description'')) (\<lambda>dnode.
     bindE (bind_string dnode) (\<lambda>ds.
     bindE (index1 (py_split DQ ds)) (\<lambda>description.
     bindE (if flag = READ then Inr (None, None)
            else bindE (attr_value_string node ''minValue'') (\<lambda>ms.
                 bindE (py_float float ms) (\<lambda>mini.
                 bindE (attr_value_string node ''maxValue'') (\<lambda>xs.
                 bindE (py_float float xs) (\<lambda>maxi.
                 Inr (Some mini, Some maxi)))))) (\<lambda>(mini, maxi).
     Inr (if flag = READ then ''Read'' else ''Overwrite'', basename_of instance,
          \<lparr>Unit = unit, Description = description, Minimum = mini, Maximum = maxi\<rparr>))))) = Inr (label, b, r)"
    by blast
  from index1_split_Inr [OF iu] have uq: "DQ \<in> set us" and unit: "unit = after_quote us" by simp_all
  from bindE_Inr [OF 2] obtain dnode where d: "node_named tree (basename_of instance @ ''.description'') = Inr dnode"
    and 3: "bindE (bind_string dnode) (\<lambda>ds.
     bindE (index1 (py_split DQ ds)) (\<lambda>description.
     bindE (if flag = READ then Inr (None, None)
            else bindE (attr_value_string node ''minValue'') (\<lambda>ms.
                 bindE (py_float float ms) (\<lambda>mini.
                 bindE (attr_value_string node ''maxValue'') (\<lambda>xs.
                 bindE (py_float float xs) (\<lambda>maxi.
                 Inr (Some mini, Some maxi)))))) (\<lambda>(mini, maxi).
     Inr (if flag = READ then ''Read'' else ''Overwrite'', basename_of instance,
          \<lparr>Unit = unit, Description = description, Minimum = mini, Maximum = maxi\<rparr>)))) = Inr (label, b, r)"
    by blast
  from bindE_Inr [OF 3] obtain ds where s: "bind_string dnode = Inr ds"
    and 4: "bindE (index1 (py_split DQ ds)) (\<lambda>description.
     bindE (if flag = READ then Inr (None, None)
            else bindE (attr_value_string node ''minValue'') (\<lambda>ms.
                 bindE (py_float float ms) (\<lambda>mini.
                 bindE (attr_value_string node ''maxValue'') (\<lambda>xs.
                 bindE (py_float float xs) (\<lambda>maxi.
                 Inr (Some mini, Some maxi)))))) (\<lambda>(mini, maxi).
     Inr (if flag = READ then ''Read'' else ''Overwrite'', basename_of instance,
          \<lparr>Unit = unit, Description = description, Minimum = mini, Maximum = maxi\<rparr>))) = Inr (label, b, r)"
    by blast
  from bindE_Inr [OF 4] obtain description where idd: "index1 (py_split DQ ds) = Inr description"
    by blast
  from index1_split_Inr [OF idd] have dq: "DQ \<in> set ds" by simp
  note 5 = assms [unfolded rr_description [OF n u uq d s dq] ]
  show ?thesis
  proof (cases "flag = READ")
    case True
    with 5 n u uq d s dq show ?thesis by auto
  next
    case False
    with 5 have 6: "bindE (bindE (attr_value_string node ''minValue'') (\<lambda>ms.
                 bindE (py_float float ms) (\<lambda>mini.
                 bindE (attr_value_string node ''maxValue'') (\<lambda>xs.
                 bindE (py_float float xs) (\<lambda>maxi.
                 Inr (Some mini, Some maxi)))))) (\<lambda>(mini, maxi).
       Inr (''Overwrite'', basename_of instance,
            \<lparr>Unit = after_quote us, Description = after_quote ds, Minimum = mini, Maximum = maxi\<rparr>))
       = Inr (label, b, r)"
      by simp
    from bindE_Inr [OF 6] obtain p where 7: "bindE (attr_value_string node ''minValue'') (\<lambda>ms.
                 bindE (py_float float ms) (\<lambda>mini.
                 bindE (attr_value_string node ''maxValue'') (\<lambda>xs.
                 bindE (py_float float xs) (\<lambda>maxi.
                 Inr (Some mini, Some maxi))))) = Inr p"
      and pr: "(case p of (mini, maxi) \<Rightarrow>
       Inr (''Overwrite'', basename_of instance,
            \<lparr>Unit = after_quote us, Description = after_quote ds, Minimum = mini, Maximum = maxi\<rparr>))
       = (Inr (label, b, r) :: error + string \<times> string \<times> 'a instance_record)"
      by blast
    from bindE_Inr [OF 7] obtain ms where ms: "attr_value_string node ''minValue'' = Inr ms"
      and 8: "bindE (py_float float ms) (\<lambda>mini.
                 bindE (attr_value_string node ''maxValue'') (\<lambda>xs.
                 bindE (py_float float xs) (\<lambda>maxi.
                 Inr (Some mini, Some maxi)))) = Inr p"
      by blast
    from bindE_Inr [OF 8] obtain mn where mn: "py_float float ms = Inr mn"
      and 9: "bindE (attr_value_string node ''maxValue'') (\<lambda>xs.
                 bindE (py_float float xs) (\<lambda>maxi.
                 Inr (Some mn, Some maxi))) = Inr p"
      by blast
    from bindE_Inr [OF 9] obtain xs where xs: "attr_value_string node ''maxValue'' = Inr xs"
      and 10: "bindE (py_float float xs) (\<lambda>maxi. Inr (Some mn, Some maxi)) = Inr p"
      by blast
    from bindE_Inr [OF 10] obtain mx where mx: "py_float float xs = Inr mx"
      and p: "p = (Some mn, Some mx)"
      by auto
    from pr p have lb: "label = ''Overwrite''" "b = basename_of instance"
      and r: "r = \<lparr>Unit = after_quote us, Description = after_quote ds,
                       Minimum = Some mn, Maximum = Some mx\<rparr>"
      by simp_all
    have "\<exists>ms xs mn mx. attr_value_string node ''minValue'' = Inr ms \<and> float ms = Some mn \<and>
               attr_value_string node ''maxValue'' = Inr xs \<and> float xs = Some mx \<and>
               Minimum r = Some mn \<and> Maximum r = Some mx"
      using ms xs py_float_Inr [OF mn] py_float_Inr [OF mx] r by auto
    with False lb n u uq d s dq r show ?thesis by auto
  qed
qed

lemma count_list_distinct: "distinct xs \<Longrightarrow> x \<in> set xs \<Longrightarrow> count_list xs x = 1"
  by (induction xs) auto

lemma process_readwrite_None:
  assumes "process_readwrite float tree instance ins flag = (ins', None)"
  shows "\<exists>label b r. readwrite_record float tree instance flag = Inr (label, b, r) \<and>
           ins' = instances_set ins label b r"
  using assms by (auto simp: process_readwrite_def split: sum.splits)

lemma instances_get_set:
  "label = ''Read'' \<or> label = ''Overwrite'' \<Longrightarrow>
   instances_get (instances_set ins label b r) label = dict_set b r (instances_get ins label)"
  by (auto simp: instances_get_def instances_set_def)

text \<open>
  Claim C5, as amended. For every variable processed as Read or Overwrite whose extraction
  succeeds, the record stored under its basename in the map of its role has, as Unit and as
  Description, the text after the first double quote (up to the next double quote or to the
  end) of the unit string of the signal node and of the string of the description node;
  these texts may be empty. Its Minimum and Maximum are non-null if and only if the role is
  Overwrite: for Overwrite they are the floats parsed from the \<^verbatim>\<open>minValue\<close> and \<^verbatim>\<open>maxValue\<close>
  strings of the signal node, for Read they are null.
\<close>

theorem readwrite_record_fields:
  assumes "process_readwrite float tree instance ins flag = (ins', None)"
  shows "\<exists>node us dnode ds r.
       node_named tree (basename_of instance @ (if flag = READ then ''.y'' else ''.u'')) = Inr node \<and>
       attr_value_string node ''unit'' = Inr us \<and> DQ \<in> set us \<and>
       node_named tree (basename_of instance @ ''.description'') = Inr dnode \<and>
       bind_string dnode = Inr ds \<and> DQ \<in> set ds \<and>
       map_of (if flag = READ then Read ins' else Overwrite ins') (basename_of instance) = Some r \<and>
       Unit r = after_quote us \<and> Description r = after_quote ds \<and>
       (if flag = READ then Minimum r = None \<and> Maximum r = None
        else \<exists>ms xs mn mx. attr_value_string node ''minValue'' = Inr ms \<and> float ms = Some mn \<and>
               attr_value_string node ''maxValue'' = Inr xs \<and> float xs = Some mx \<and>
               Minimum r = Some mn \<and> Maximum r = Some mx) \<and>
       (Minimum r \<noteq> None) = (flag \<noteq> READ) \<and> (Maximum r \<noteq> None) = (flag \<noteq> READ)"
proof -
  from process_readwrite_None [OF assms] obtain label b r
    where rr: "readwrite_record float tree instance flag = Inr (label, b, r)"
      and ins': "ins' = instances_set ins label b r"
    by blast
  note f = readwrite_record_Inr [OF rr]
  from f have m: "map_of (if flag = READ then Read ins' else Overwrite ins') (basename_of instance) = Some r"
    by (auto simp: ins' instances_set_def map_of_dict_set)
  from f have "(Minimum r \<noteq> None) = (flag \<noteq> READ) \<and> (Maximum r \<noteq> None) = (flag \<noteq> READ)"
    by (auto split: if_splits)
  with f m show ?thesis by blast
qed

theorem readwrite_record_fields_witness:
  "process_readwrite demo_float overwrite_ok_tree ''s.T.boptestOverwrite'' e0 OVERWRITE
     = (\<lparr>Overwrite = [(''s.T'', \<lparr>Unit = ''K'', Description = ''setpoint'',
                                Minimum = Some ''280.0'', Maximum = Some ''320.0''\<rparr>)],
         Read = []\<rparr>, None) \<and>
   process_readwrite demo_float read_ok_tree ''s.T.boptestRead'' e0 READ
     = (\<lparr>Overwrite = [],
         Read = [(''s.T'', \<lparr>Unit = ''C'', Description = ''zone temp'',
                            Minimum = None, Maximum = None\<rparr>)]\<rparr>, None) \<and>
   (\<exists>r. map_of [(''s.T'', \<lparr>Unit = ''K'', Description = ''setpoint'',
                                Minimum = Some ''280.0'', Maximum = Some ''320.0''\<rparr>)] ''s.T'' = Some r \<and>
        Minimum r \<noteq> None \<and> Maximum r \<noteq> None) \<and>
   (\<exists>r. map_of [(''s.T'', \<lparr>Unit = ''C'', Description = ''zone temp'',
                            Minimum = None :: string option, Maximum = None\<rparr>)] ''s.T'' = Some r \<and>
        Minimum r = None \<and> Maximum r = None)"
proof -
  have o: "process_readwrite demo_float overwrite_ok_tree ''s.T.boptestOverwrite'' e0 OVERWRITE
     = (\<lparr>Overwrite = [(''s.T'', \<lparr>Unit = ''K'', Description = ''setpoint'',
                                Minimum = Some ''280.0'', Maximum = Some ''320.0''\<rparr>)],
         Read = []\<rparr>, None)"
    by code_simp
  have r: "process_readwrite demo_float read_ok_tree ''s.T.boptestRead'' e0 READ
     = (\<lparr>Overwrite = [],
         Read = [(''s.T'', \<lparr>Unit = ''C'', Description = ''zone temp'',
                            Minimum = None, Maximum = None\<rparr>)]\<rparr>, None)"
    by code_simp
  have bo: "basename_of ''s.T.boptestOverwrite'' = ''s.T''" by code_simp
  have br: "basename_of ''s.T.boptestRead'' = ''s.T''" by code_simp
  have ne: "OVERWRITE \<noteq> READ" by (simp add: OVERWRITE_def READ_def)
  from readwrite_record_fields [OF o]
  have 1: "\<exists>r. map_of [(''s.T'', \<lparr>Unit = ''K'', Description = ''setpoint'',
                                Minimum = Some ''280.0'', Maximum = Some ''320.0''\<rparr>)] ''s.T'' = Some r \<and>
        Minimum r \<noteq> None \<and> Maximum r \<noteq> None"
    unfolding bo using ne by (simp only: instances.simps if_False) blast
  from readwrite_record_fields [OF r]
  have 2: "\<exists>r. map_of [(''s.T'', \<lparr>Unit = ''C'', Description = ''zone temp'',
                            Minimum = None :: string option, Maximum = None\<rparr>)] ''s.T'' = Some r \<and>
        Minimum r = None \<and> Maximum r = None"
    unfolding br by (simp only: instances.simps simp_thms if_True) blast
  from o r 1 2 show ?thesis by blast
qed

text \<open>
  Claim C5 as stated fails: for the unit string \<open>""\<close> the extraction succeeds and the
  record has the empty Unit.
\<close>

theorem empty_unit_counterexample:
  "process_readwrite demo_float empty_unit_tree ''s.T.boptestOverwrite'' e0 OVERWRITE
     = (\<lparr>Overwrite = [(''s.T'', \<lparr>Unit = [], Description = ''setpoint'',
                                Minimum = Some ''280.0'', Maximum = Some ''320.0''\<rparr>)],
         Read = []\<rparr>, None)"
  by code_simp

text \<open>
  Claim C8, as amended. The extraction for a Read or Overwrite variable goes through its
  steps in order and fails at the first step that fails: with \<open>StopIteration\<close> (the spec's
  MissingNodeError) when no node is named basename + \<open>.y\<close> (Read) or basename + \<open>.u\<close>
  (Overwrite); the unit string read, with \<open>IndexError\<close> (MalformedAttributeError) when it
  contains no double-quote character at all; otherwise with \<open>StopIteration\<close> when no node is
  named basename + \<open>.description\<close>; the description string read, with \<open>IndexError\<close> when it
  contains no double-quote character; otherwise, for Overwrite only, with \<open>ValueError\<close>
  (MalformedAttributeError) when the \<^verbatim>\<open>minValue\<close> string, or after it the \<^verbatim>\<open>maxValue\<close> string,
  does not parse as a float. On every failure both maps are as they were before the call.
\<close>

theorem readwrite_failures:
  assumes "sig = basename_of instance @ (if flag = READ then ''.y'' else ''.u'')"
      and "dsc = basename_of instance @ ''.description''"
      and "out = process_readwrite float tree instance ins flag"
  shows "((\<forall>x\<in>set (iter tree). get_name x \<noteq> sig) \<longrightarrow> snd out = Some StopIteration) \<and>
         (\<forall>node us. node_named tree sig = Inr node \<and> attr_value_string node ''unit'' = Inr us \<longrightarrow>
            (DQ \<notin> set us \<longrightarrow> snd out = Some IndexError) \<and>
            (DQ \<in> set us \<longrightarrow>
               ((\<forall>x\<in>set (iter tree). get_name x \<noteq> dsc) \<longrightarrow> snd out = Some StopIteration) \<and>
               (\<forall>dnode ds. node_named tree dsc = Inr dnode \<and> bind_string dnode = Inr ds \<longrightarrow>
                  (DQ \<notin> set ds \<longrightarrow> snd out = Some IndexError) \<and>
                  (DQ \<in> set ds \<and> flag \<noteq> READ \<longrightarrow>
                     (\<forall>ms. attr_value_string node ''minValue'' = Inr ms \<longrightarrow>
                        (float ms = None \<longrightarrow> snd out = Some ValueError) \<and>
                        (\<forall>mn xs. float ms = Some mn \<and> attr_value_string node ''maxValue'' = Inr xs
                             \<and> float xs = None \<longrightarrow> snd out = Some ValueError)))))) \<and>
         (snd out \<noteq> None \<longrightarrow> fst out = ins)"
proof (intro conjI allI impI)
  assume "\<forall>x\<in>set (iter tree). get_name x \<noteq> sig"
  from node_named_none [OF this] show "snd out = Some StopIteration"
    unfolding assms by (intro process_readwrite_error rr_no_signal)
next
  fix node us
  assume h: "node_named tree sig = Inr node \<and> attr_value_string node ''unit'' = Inr us"
    and q: "DQ \<notin> set us"
  from h have "readwrite_record float tree instance flag = Inl IndexError"
    unfolding assms by (simp add: rr_unit index1_split_none [OF q])
  then show "snd out = Some IndexError"
    unfolding assms by (rule process_readwrite_error)
next
  fix node us
  assume h: "node_named tree sig = Inr node \<and> attr_value_string node ''unit'' = Inr us"
    and q: "DQ \<in> set us"
    and d: "\<forall>x\<in>set (iter tree). get_name x \<noteq> dsc"
  from h have "readwrite_record float tree instance flag = Inl StopIteration"
    unfolding assms
    by (simp add: rr_unit index1_split_quote [OF q] node_named_none [OF d [unfolded assms] ])
  then show "snd out = Some StopIteration"
    unfolding assms by (rule process_readwrite_error)
next
  fix node us dnode ds
  assume h: "node_named tree sig = Inr node \<and> attr_value_string node ''unit'' = Inr us"
    and q: "DQ \<in> set us"
    and d: "node_named tree dsc = Inr dnode \<and> bind_string dnode = Inr ds"
    and dq: "DQ \<notin> set ds"
  from h d have "readwrite_record float tree instance flag = Inl IndexError"
    unfolding assms
    by (simp add: rr_unit index1_split_quote [OF q] index1_split_none [OF dq])
  then show "snd out = Some IndexError"
    unfolding assms by (rule process_readwrite_error)
next
  fix node us dnode ds ms
  assume h: "node_named tree sig = Inr node \<and> attr_value_string node ''unit'' = Inr us"
    and q: "DQ \<in> set us"
    and d: "node_named tree dsc = Inr dnode \<and> bind_string dnode = Inr ds"
    and dq: "DQ \<in> set ds \<and> flag \<noteq> READ"
    and m: "attr_value_string node ''minValue'' = Inr ms" "float ms = None"
  from h d dq q have "readwrite_record float tree instance flag = Inl ValueError"
    unfolding assms by (simp add: rr_description m py_float_def)
  then show "snd out = Some ValueError"
    unfolding assms by (rule process_readwrite_error)
next
  fix node us dnode ds ms mn xs
  assume h: "node_named tree sig = Inr node \<and> attr_value_string node ''unit'' = Inr us"
    and q: "DQ \<in> set us"
    and d: "node_named tree dsc = Inr dnode \<and> bind_string dnode = Inr ds"
    and dq: "DQ \<in> set ds \<and> flag \<noteq> READ"
    and m: "attr_value_string node ''minValue'' = Inr ms"
    and x: "float ms = Some mn \<and> attr_value_string node ''maxValue'' = Inr xs \<and> float xs = None"
  from h d dq q have "readwrite_record float tree instance flag = Inl ValueError"
    unfolding assms by (simp add: rr_description m x py_float_def)
  then show "snd out = Some ValueError"
    unfolding assms by (rule process_readwrite_error)
next
  assume "snd out \<noteq> None"
  then show "fst out = ins" unfolding assms by (rule process_readwrite_unchanged)
qed

theorem readwrite_failures_witness:
  "snd (process_readwrite demo_float (signal_tree []) ''s.T.boptestRead'' e0 READ)
     = Some StopIteration \<and>
   snd (process_readwrite demo_float
          (signal_tree [signal_node ''.y'' ''C'' [] [], description_node ''d''])
          ''s.T.boptestRead'' e0 READ) = Some IndexError \<and>
   snd (process_readwrite demo_float
          (signal_tree [signal_node ''.y'' ([DQ] @ ''C'' @ [DQ]) [] [] ])
          ''s.T.boptestRead'' e0 READ) = Some StopIteration \<and>
   snd (process_readwrite demo_float
          (signal_tree [signal_node ''.y'' ([DQ] @ ''C'' @ [DQ]) [] [], description_node ''d''])
          ''s.T.boptestRead'' e0 READ) = Some IndexError \<and>
   snd (process_readwrite demo_float
          (signal_tree [signal_node ''.u'' ([DQ] @ ''K'' @ [DQ]) ''abc'' ''320.0'',
                        description_node ([DQ] @ ''setpoint'' @ [DQ])])
          ''s.T.boptestOverwrite'' e0 OVERWRITE) = Some ValueError \<and>
   snd (process_readwrite demo_float
          (signal_tree [signal_node ''.u'' ([DQ] @ ''K'' @ [DQ]) ''280.0'' ''abc'',
                        description_node ([DQ] @ ''setpoint'' @ [DQ])])
          ''s.T.boptestOverwrite'' e0 OVERWRITE) = Some ValueError \<and>
   fst (process_readwrite demo_float
          (signal_tree [signal_node ''.u'' ([DQ] @ ''K'' @ [DQ]) ''280.0'' ''abc'',
                        description_node ([DQ] @ ''setpoint'' @ [DQ])])
          ''s.T.boptestOverwrite'' old_instances OVERWRITE) = old_instances"
proof -
  let ?r = "''s.T.boptestRead''"
  let ?o = "''s.T.boptestOverwrite''"
  have ne: "OVERWRITE \<noteq> READ" by (simp add: OVERWRITE_def READ_def)
  have 1: "snd (process_readwrite demo_float (signal_tree []) ?r e0 READ) = Some StopIteration"
  proof -
    have a: "\<forall>x\<in>set (iter (signal_tree [])).
        get_name x \<noteq> basename_of ?r @ (if READ = READ then ''.y'' else ''.u'')"
      by code_simp
    from readwrite_failures [OF refl refl refl, of "signal_tree []" ?r READ demo_float e0] a
    show ?thesis by blast
  qed
  have 2: "snd (process_readwrite demo_float
          (signal_tree [signal_node ''.y'' ''C'' [] [], description_node ''d'']) ?r e0 READ)
       = Some IndexError"
  proof -
    let ?n = "signal_node ''.y'' ''C'' [] []"
    let ?T = "signal_tree [?n, description_node ''d'']"
    have a: "node_named ?T (basename_of ?r @ (if READ = READ then ''.y'' else ''.u'')) = Inr ?n"
      by code_simp
    have b: "attr_value_string ?n ''unit'' = Inr ''C''" by code_simp
    have c: "DQ \<notin> set ''C''" by simp
    from readwrite_failures [OF refl refl refl, of ?T ?r READ demo_float e0] a b c
    show ?thesis by blast
  qed
  have 3: "snd (process_readwrite demo_float
          (signal_tree [signal_node ''.y'' ([DQ] @ ''C'' @ [DQ]) [] [] ]) ?r e0 READ)
       = Some StopIteration"
  proof -
    let ?n = "signal_node ''.y'' ([DQ] @ ''C'' @ [DQ]) [] []"
    let ?T = "signal_tree [?n]"
    have a: "node_named ?T (basename_of ?r @ (if READ = READ then ''.y'' else ''.u'')) = Inr ?n"
      by code_simp
    have b: "attr_value_string ?n ''unit'' = Inr ([DQ] @ ''C'' @ [DQ])" by code_simp
    have c: "DQ \<in> set ([DQ] @ ''C'' @ [DQ])" by simp
    have d: "\<forall>x\<in>set (iter ?T). get_name x \<noteq> basename_of ?r @ ''.description''"
      by code_simp
    from readwrite_failures [OF refl refl refl, of ?T ?r READ demo_float e0] a b c d
    show ?thesis by blast
  qed
  have 4: "snd (process_readwrite demo_float
          (signal_tree [signal_node ''.y'' ([DQ] @ ''C'' @ [DQ]) [] [], description_node ''d''])
          ?r e0 READ) = Some IndexError"
  proof -
    let ?n = "signal_node ''.y'' ([DQ] @ ''C'' @ [DQ]) [] []"
    let ?T = "signal_tree [?n, description_node ''d'']"
    have a: "node_named ?T (basename_of ?r @ (if READ = READ then ''.y'' else ''.u'')) = Inr ?n"
      by code_simp
    have b: "attr_value_string ?n ''unit'' = Inr ([DQ] @ ''C'' @ [DQ])" by code_simp
    have c: "DQ \<in> set ([DQ] @ ''C'' @ [DQ])" by simp
    have d: "node_named ?T (basename_of ?r @ ''.description'') = Inr (description_node ''d'')"
      by code_simp
    have e: "bind_string (description_node ''d'') = Inr ''d''" by code_simp
    have f: "DQ \<notin> set ''d''" by simp
    from readwrite_failures [OF refl refl refl, of ?T ?r READ demo_float e0] a b c d e f
    show ?thesis by blast
  qed
  have 5: "snd (process_readwrite demo_float
          (signal_tree [signal_node ''.u'' ([DQ] @ ''K'' @ [DQ]) ''abc'' ''320.0'',
                        description_node ([DQ] @ ''setpoint'' @ [DQ])])
          ?o e0 OVERWRITE) = Some ValueError"
  proof -
    let ?n = "signal_node ''.u'' ([DQ] @ ''K'' @ [DQ]) ''abc'' ''320.0''"
    let ?d = "description_node ([DQ] @ ''setpoint'' @ [DQ])"
    let ?T = "signal_tree [?n, ?d]"
    have a: "node_named ?T (basename_of ?o @ (if OVERWRITE = READ then ''.y'' else ''.u'')) = Inr ?n"
      by code_simp
    have b: "attr_value_string ?n ''unit'' = Inr ([DQ] @ ''K'' @ [DQ])" by code_simp
    have c: "DQ \<in> set ([DQ] @ ''K'' @ [DQ])" by simp
    have d: "node_named ?T (basename_of ?o @ ''.description'') = Inr ?d" by code_simp
    have e: "bind_string ?d = Inr ([DQ] @ ''setpoint'' @ [DQ])" by code_simp
    have f: "DQ \<in> set ([DQ] @ ''setpoint'' @ [DQ]) \<and> OVERWRITE \<noteq> READ" using ne by simp
    have g: "attr_value_string ?n ''minValue'' = Inr ''abc''" by code_simp
    have h: "demo_float ''abc'' = None" by code_simp
    from readwrite_failures [OF refl refl refl, of ?T ?o OVERWRITE demo_float e0] a b c d e f g h
    show ?thesis by blast
  qed
  let ?n = "signal_node ''.u'' ([DQ] @ ''K'' @ [DQ]) ''280.0'' ''abc''"
  let ?d = "description_node ([DQ] @ ''setpoint'' @ [DQ])"
  let ?T = "signal_tree [?n, ?d]"
  have a: "node_named ?T (basename_of ?o @ (if OVERWRITE = READ then ''.y'' else ''.u'')) = Inr ?n"
    by code_simp
  have b: "attr_value_string ?n ''unit'' = Inr ([DQ] @ ''K'' @ [DQ])" by code_simp
  have c: "DQ \<in> set ([DQ] @ ''K'' @ [DQ])" by simp
  have d: "node_named ?T (basename_of ?o @ ''.description'') = Inr ?d" by code_simp
  have e: "bind_string ?d = Inr ([DQ] @ ''setpoint'' @ [DQ])" by code_simp
  have f: "DQ \<in> set ([DQ] @ ''setpoint'' @ [DQ]) \<and> OVERWRITE \<noteq> READ" using ne by simp
  have g: "attr_value_string ?n ''minValue'' = Inr ''280.0''" by code_simp
  have h: "demo_float ''280.0'' = Some ''280.0'' \<and> attr_value_string ?n ''maxValue'' = Inr ''abc''
             \<and> demo_float ''abc'' = None"
    by code_simp
  have 6: "snd (process_readwrite demo_float ?T ?o e0 OVERWRITE) = Some ValueError"
    using readwrite_failures [OF refl refl refl, of ?T ?o OVERWRITE demo_float e0] a b c d e f g h
    by blast
  have 7: "snd (process_readwrite demo_float ?T ?o old_instances OVERWRITE) = Some ValueError"
    using readwrite_failures [OF refl refl refl, of ?T ?o OVERWRITE demo_float old_instances]
      a b c d e f g h
    by blast
  have 8: "fst (process_readwrite demo_float ?T ?o old_instances OVERWRITE) = old_instances"
    using readwrite_failures [OF refl refl refl, of ?T ?o OVERWRITE demo_float old_instances] 7
    by simp
  from 1 2 3 4 5 6 8 show ?thesis by blast
qed

text \<open>
  Claim C8 as stated fails: the unit string \<open>"K\<close> has a double quote that is never closed,
  so no quoted substring, and the extraction does not fail: it stores the record with the
  unit \<open>K\<close>.
\<close>

theorem open_quote_counterexample:
  "node_named open_quote_tree ''s.T.u'' = Inr (signal_node ''.u'' ([DQ] @ ''K'') ''280.0'' ''320.0'') \<and>
   attr_value_string (signal_node ''.u'' ([DQ] @ ''K'') ''280.0'' ''320.0'') ''unit'' = Inr ([DQ] @ ''K'') \<and>
   quoted ([DQ] @ ''K'') = None \<and>
   process_readwrite demo_float open_quote_tree ''s.T.boptestOverwrite'' e0 OVERWRITE
     = (\<lparr>Overwrite = [(''s.T'', \<lparr>Unit = ''K'', Description = ''setpoint'',
                                Minimum = Some ''280.0'', Maximum = Some ''320.0''\<rparr>)],
         Read = []\<rparr>, None)"
  by code_simp

text \<open>
  Claim C9. When the extraction for a later variable yields the label of a map, a basename
  and a record, and that map already holds a record for the same basename, processing the
  later variable raises no exception and replaces the earlier record: the map then holds
  for that key exactly the new record, which does not depend on the earlier one; the key
  stays where it was and occurs once; no other key and not the other map is changed.
\<close>

theorem last_write_wins:
  assumes "readwrite_record float tree instance flag = Inr (label, b, r)"
    and "map_of (instances_get ins label) b = Some r_old"
    and "distinct (keys (instances_get ins label))"
  shows "\<exists>ins'. process_readwrite float tree instance ins flag = (ins', None) \<and>
           map_of (instances_get ins' label) b = Some r \<and>
           keys (instances_get ins' label) = keys (instances_get ins label) \<and>
           count_list (keys (instances_get ins' label)) b = 1 \<and>
           (\<forall>k. k \<noteq> b \<longrightarrow> map_of (instances_get ins' label) k = map_of (instances_get ins label) k) \<and>
           (if label = ''Read'' then Overwrite ins' = Overwrite ins else Read ins' = Read ins)"
proof -
  from readwrite_record_Inr [OF assms(1)] have l: "label = ''Read'' \<or> label = ''Overwrite''"
    by (auto split: if_splits)
  have p: "process_readwrite float tree instance ins flag = (instances_set ins label b r, None)"
    by (simp add: process_readwrite_def assms(1))
  have g: "instances_get (instances_set ins label b r) label = dict_set b r (instances_get ins label)"
    by (rule instances_get_set [OF l])
  from assms(2) have inb: "b \<in> set (keys (instances_get ins label))"
    by (auto simp: keys_def dest: map_of_SomeD intro: rev_image_eqI)
  have k: "keys (dict_set b r (instances_get ins label)) = keys (instances_get ins label)"
    using inb by (simp add: keys_dict_set)
  have c: "count_list (keys (instances_get ins label)) b = 1"
    using inb assms(3) by (rule count_list_distinct [rotated])
  have o: "if label = ''Read'' then Overwrite (instances_set ins label b r) = Overwrite ins
           else Read (instances_set ins label b r) = Read ins"
    by (simp add: instances_set_def)
  show ?thesis
    unfolding p using g k c o by (simp add: map_of_dict_set)
qed

theorem last_write_wins_witness:
  "readwrite_record demo_float overwrite_ok_tree ''s.T.boptestOverwrite'' OVERWRITE
     = Inr (''Overwrite'', ''s.T'', \<lparr>Unit = ''K'', Description = ''setpoint'',
                                Minimum = Some ''280.0'', Maximum = Some ''320.0''\<rparr>) \<and>
   map_of (instances_get old_instances ''Overwrite'') ''s.T''
     = Some \<lparr>Unit = ''old'', Description = ''earlier'', Minimum = Some ''1'', Maximum = Some ''2''\<rparr> \<and>
   distinct (keys (instances_get old_instances ''Overwrite'')) \<and>
   process_readwrite demo_float overwrite_ok_tree ''s.T.boptestOverwrite'' old_instances OVERWRITE
     = (\<lparr>Overwrite =
          [(''a'', \<lparr>Unit = ''W'', Description = ''first'', Minimum = Some ''0'', Maximum = Some ''1''\<rparr>),
           (''s.T'', \<lparr>Unit = ''K'', Description = ''setpoint'', Minimum = Some ''280.0'', Maximum = Some ''320.0''\<rparr>),
           (''z'', \<lparr>Unit = ''W'', Description = ''last'', Minimum = Some ''0'', Maximum = Some ''1''\<rparr>)],
         Read = []\<rparr>, None) \<and>
   (\<exists>ins'. process_readwrite demo_float overwrite_ok_tree ''s.T.boptestOverwrite'' old_instances OVERWRITE
             = (ins', None) \<and>
      map_of (instances_get ins' ''Overwrite'') ''s.T''
        = Some \<lparr>Unit = ''K'', Description = ''setpoint'', Minimum = Some ''280.0'', Maximum = Some ''320.0''\<rparr> \<and>
      count_list (keys (instances_get ins' ''Overwrite'')) ''s.T'' = 1)"
proof -
  have a: "readwrite_record demo_float overwrite_ok_tree ''s.T.boptestOverwrite'' OVERWRITE
     = Inr (''Overwrite'', ''s.T'', \<lparr>Unit = ''K'', Description = ''setpoint'',
                                Minimum = Some ''280.0'', Maximum = Some ''320.0''\<rparr>)"
    by code_simp
  have b: "map_of (instances_get old_instances ''Overwrite'') ''s.T''
     = Some \<lparr>Unit = ''old'', Description = ''earlier'', Minimum = Some ''1'', Maximum = Some ''2''\<rparr>"
    by code_simp
  have c: "distinct (keys (instances_get old_instances ''Overwrite''))"
    by code_simp
  have d: "process_readwrite demo_float overwrite_ok_tree ''s.T.boptestOverwrite'' old_instances OVERWRITE
     = (\<lparr>Overwrite =
          [(''a'', \<lparr>Unit = ''W'', Description = ''first'', Minimum = Some ''0'', Maximum = Some ''1''\<rparr>),
           (''s.T'', \<lparr>Unit = ''K'', Description = ''setpoint'', Minimum = Some ''280.0'', Maximum = Some ''320.0''\<rparr>),
           (''z'', \<lparr>Unit = ''W'', Description = ''last'', Minimum = Some ''0'', Maximum = Some ''1''\<rparr>)],
         Read = []\<rparr>, None)"
    by code_simp
  from last_write_wins [OF a b c]
  have "\<exists>ins'. process_readwrite demo_float overwrite_ok_tree ''s.T.boptestOverwrite'' old_instances OVERWRITE
             = (ins', None) \<and>
      map_of (instances_get ins' ''Overwrite'') ''s.T''
        = Some \<lparr>Unit = ''K'', Description = ''setpoint'', Minimum = Some ''280.0'', Maximum = Some ''320.0''\<rparr> \<and>
      count_list (keys (instances_get ins' ''Overwrite'')) ''s.T'' = 1"
    by blast
  with a b c d show ?thesis by blast
qed

section \<open>The wrapper synthesizer: properties\<close>

lemma dict_get_key: "k \<in> set (keys d) \<Longrightarrow> \<exists>v. dict_get d k = Inr v"
proof -
  assume "k \<in> set (keys d)"
  then have "map_of d k \<noteq> None" by (simp add: keys_def map_of_eq_None_iff)
  then show ?thesis by (auto simp: dict_get_def)
qed

lemma set_keys_dict_set: "set (keys (dict_set k v d)) = insert k (set (keys d))"
  by (auto simp: keys_dict_set)

lemma make_var_name_known:
  "make_var_name b ''input_signal'' d a
     = Inr (py_replace DOT ''_'' b @ ''_u'' @ a @ (if d = [] then [] else '' '' @ [DQ] @ d @ [DQ]))"
  "make_var_name b ''input_activate'' d a
     = Inr (py_replace DOT ''_'' b @ ''_activate'' @ (if d = [] then [] else '' '' @ [DQ] @ d @ [DQ]))"
  "make_var_name b ''output'' d a
     = Inr (py_replace DOT ''_'' b @ ''_y'' @ a @ (if d = [] then [] else '' '' @ [DQ] @ d @ [DQ]))"
  by (simp_all add: make_var_name_def Let_def)

lemma overwrite_block_ok:
  assumes "block \<in> set (keys (Overwrite ins))"
  shows "\<exists>st'. overwrite_block repr ins block st = Inr st' \<and>
           set (keys (input_signals_wo_info st')) = insert block (set (keys (input_signals_wo_info st))) \<and>
           set (keys (input_activate_wo_info st')) = insert block (set (keys (input_activate_wo_info st)))"
proof -
  obtain r where r: "dict_get (Overwrite ins) block = Inr r"
    using dict_get_key [OF assms] by blast
  show ?thesis
    unfolding overwrite_block_def r make_var_name_known
    by (simp add: Let_def set_keys_dict_set)
qed

lemma overwrite_loop_ok:
  "set ks \<subseteq> set (keys (Overwrite ins)) \<Longrightarrow>
   \<exists>st'. for_each (overwrite_block repr ins) ks st = Inr st' \<and>
     set (keys (input_signals_wo_info st')) = set ks \<union> set (keys (input_signals_wo_info st)) \<and>
     set (keys (input_activate_wo_info st')) = set ks \<union> set (keys (input_activate_wo_info st))"
proof (induction ks arbitrary: st)
  case Nil
  then show ?case by simp
next
  case (Cons k ks)
  then have "k \<in> set (keys (Overwrite ins))" by simp
  from overwrite_block_ok [OF this, of repr st]
  obtain st1 where 1: "overwrite_block repr ins k st = Inr st1"
    and 2: "set (keys (input_signals_wo_info st1)) = insert k (set (keys (input_signals_wo_info st)))"
    and 3: "set (keys (input_activate_wo_info st1)) = insert k (set (keys (input_activate_wo_info st)))"
    by blast
  from Cons.prems have "set ks \<subseteq> set (keys (Overwrite ins))" by simp
  from Cons.IH [OF this, of st1]
  obtain st' where 4: "for_each (overwrite_block repr ins) ks st1 = Inr st'"
    and 5: "set (keys (input_signals_wo_info st')) = set ks \<union> set (keys (input_signals_wo_info st1))"
    and 6: "set (keys (input_activate_wo_info st')) = set ks \<union> set (keys (input_activate_wo_info st1))"
    by blast
  show ?case using 1 2 3 4 5 6 by auto
qed

lemma output_block_ok:
  assumes "block \<in> set (keys d)"
  shows "\<exists>st'. output_block d block st = Inr st' \<and>
           input_signals_wo_info st' = input_signals_wo_info st \<and>
           input_activate_wo_info st' = input_activate_wo_info st"
proof -
  obtain r where r: "dict_get d block = Inr r"
    using dict_get_key [OF assms] by blast
  show ?thesis unfolding output_block_def r make_var_name_known by simp
qed

lemma output_loop_ok:
  "set ks \<subseteq> set (keys d) \<Longrightarrow>
   \<exists>st'. for_each (output_block d) ks st = Inr st' \<and>
     input_signals_wo_info st' = input_signals_wo_info st \<and>
     input_activate_wo_info st' = input_activate_wo_info st"
proof (induction ks arbitrary: st)
  case Nil
  then show ?case by simp
next
  case (Cons k ks)
  then have "k \<in> set (keys d)" by simp
  from output_block_ok [OF this, of st]
  obtain st1 where 1: "output_block d k st = Inr st1"
    and 2: "input_signals_wo_info st1 = input_signals_wo_info st"
    and 3: "input_activate_wo_info st1 = input_activate_wo_info st"
    by blast
  from Cons.prems have "set ks \<subseteq> set (keys d)" by simp
  from Cons.IH [OF this, of st1]
  obtain st' where 4: "for_each (output_block d) ks st1 = Inr st'"
    and 5: "input_signals_wo_info st' = input_signals_wo_info st1"
    and 6: "input_activate_wo_info st' = input_activate_wo_info st1"
    by blast
  show ?case using 1 2 3 4 5 6 by simp
qed

lemma connect_block_ok:
  assumes "snd ib \<in> set (keys (input_signals_wo_info st))"
    and "snd ib \<in> set (keys (input_activate_wo_info st))"
  shows "\<exists>st'. connect_block ins ib st = Inr st' \<and>
           input_signals_wo_info st' = input_signals_wo_info st \<and>
           input_activate_wo_info st' = input_activate_wo_info st"
proof -
  obtain i block where ib: "ib = (i, block)" by (cases ib)
  obtain s where s: "dict_get (input_signals_wo_info st) block = Inr s"
    using dict_get_key assms(1) ib by fastforce
  obtain a where a: "dict_get (input_activate_wo_info st) block = Inr a"
    using dict_get_key assms(2) ib by fastforce
  show ?thesis unfolding connect_block_def ib by (simp add: s a)
qed

lemma connect_loop_ok:
  "snd ` set ibs \<subseteq> set (keys (input_signals_wo_info st)) \<Longrightarrow>
   snd ` set ibs \<subseteq> set (keys (input_activate_wo_info st)) \<Longrightarrow>
   \<exists>st'. for_each (connect_block ins) ibs st = Inr st'"
proof (induction ibs arbitrary: st)
  case Nil
  then show ?case by simp
next
  case (Cons ib ibs)
  have "snd ib \<in> set (keys (input_signals_wo_info st))"
    and "snd ib \<in> set (keys (input_activate_wo_info st))"
    using Cons.prems by auto
  from connect_block_ok [OF this, of ins]
  obtain st1 where 1: "connect_block ins ib st = Inr st1"
    and 2: "input_signals_wo_info st1 = input_signals_wo_info st"
    and 3: "input_activate_wo_info st1 = input_activate_wo_info st"
    by blast
  have "snd ` set ibs \<subseteq> set (keys (input_signals_wo_info st1))"
    and "snd ` set ibs \<subseteq> set (keys (input_activate_wo_info st1))"
    using Cons.prems 2 3 by auto
  from Cons.IH [OF this] obtain st' where "for_each (connect_block ins) ibs st1 = Inr st'"
    by blast
  with 1 show ?case by simp
qed

lemma snd_zip_subset: "snd ` set (zip xs ys) \<subseteq> set ys"
  by (auto dest: set_zip_rightD)

lemma create_wrapper_text:
  assumes "\<not> (Overwrite ins = [] \<and> Read ins = [])"
  shows "\<exists>text. create_wrapper repr mp ins = Inr ([], Some text)"
proof -
  define st0 where "st0 = \<lparr>model_code = [''model '' @ ''wrapped'' @ '' '' @ [DQ] @ ''Wrapped model of ''
                                       @ mp @ [DQ] @ [NL, TAB] @ ''// Input overwrite'' @ [NL] ],
                       input_signals_w_info = [], input_signals_wo_info = [],
                       input_activate_w_info = [], input_activate_wo_info = []\<rparr>"
  from overwrite_loop_ok [of "keys (Overwrite ins)" ins repr st0]
  obtain st1 where 1: "for_each (overwrite_block repr ins) (keys (Overwrite ins)) st0 = Inr st1"
    and k1: "set (keys (Overwrite ins)) \<subseteq> set (keys (input_signals_wo_info st1))"
    and k2: "set (keys (Overwrite ins)) \<subseteq> set (keys (input_activate_wo_info st1))"
    by auto
  define st1' where "st1' = st1\<lparr>model_code := model_code st1 @ [ [TAB] @ ''// Out read'' @ [NL] ]\<rparr>"
  from output_loop_ok [of "keys (Read ins)" "Read ins" st1']
  obtain st2 where 2: "for_each (output_block (Read ins)) (keys (Read ins)) st1' = Inr st2"
    and k3: "input_signals_wo_info st2 = input_signals_wo_info st1"
    and k4: "input_activate_wo_info st2 = input_activate_wo_info st1"
    by (auto simp: st1'_def)
  from output_loop_ok [of "keys (Overwrite ins)" "Overwrite ins" st2]
  obtain st3 where 3: "for_each (output_block (Overwrite ins)) (keys (Overwrite ins)) st2 = Inr st3"
    and k5: "input_signals_wo_info st3 = input_signals_wo_info st2"
    and k6: "input_activate_wo_info st3 = input_activate_wo_info st2"
    by auto
  define st4 where "st4 = st3\<lparr>model_code := model_code st3 @
                                   [ [TAB] @ ''// Original model'' @ [NL],
                                    [TAB] @ mp @ '' mod('' @ [NL] ]\<rparr>"
  have s1: "snd ` set (zip [0 ..< length (keys (Overwrite ins))] (keys (Overwrite ins)))
             \<subseteq> set (keys (input_signals_wo_info st4))"
    using k1 k3 k5 snd_zip_subset [of "[0 ..< length (keys (Overwrite ins))]" "keys (Overwrite ins)"]
    by (simp add: st4_def)
  have s2: "snd ` set (zip [0 ..< length (keys (Overwrite ins))] (keys (Overwrite ins)))
             \<subseteq> set (keys (input_activate_wo_info st4))"
    using k2 k4 k6 snd_zip_subset [of "[0 ..< length (keys (Overwrite ins))]" "keys (Overwrite ins)"]
    by (simp add: st4_def)
  have ne: "(length (Overwrite ins) + length (Read ins) = 0) = False" using assms by simp
  show ?thesis
  proof (cases "length (Overwrite ins) \<noteq> 0")
    case True
    obtain st5 where 5: "for_each (connect_block ins)
         (zip [0 ..< length (keys (Overwrite ins))] (keys (Overwrite ins))) st4 = Inr st5"
      using connect_loop_ok [OF s1 s2] by blast
    show ?thesis
      unfolding create_wrapper_def Let_def st0_def [symmetric]
      by (simp only: ne True not_False_eq_True if_False if_True 1 bindE_simps
            st1'_def [symmetric] 2 3 st4_def [symmetric] 5) blast
  next
    case False
    show ?thesis
      unfolding create_wrapper_def Let_def st0_def [symmetric]
      by (simp only: ne False if_False 1 2 3 bindE_simps st1'_def [symmetric]) blast
  qed
qed

lemma A_real_input:
  "count_sub ''Modelica.Blocks.Interfaces.RealInput '' scenario_A_text = 1"
  by code_simp

lemma A_real_input_sys_ctrl:
  "count_sub ''Modelica.Blocks.Interfaces.RealInput sys_ctrl_u('' scenario_A_text = 1"
  by code_simp

lemma A_boolean_input:
  "count_sub ''Modelica.Blocks.Interfaces.BooleanInput '' scenario_A_text = 1"
  by code_simp

lemma A_boolean_input_sys_ctrl:
  "count_sub ''Modelica.Blocks.Interfaces.BooleanInput sys_ctrl_activate '' scenario_A_text = 1"
  by code_simp

lemma A_real_output:
  "count_sub ''Modelica.Blocks.Interfaces.RealOutput '' scenario_A_text = 1"
  by code_simp

lemma A_real_output_bound:
  "count_sub (''Modelica.Blocks.Interfaces.RealOutput sys_ctrl_y(unit='' @ [DQ] @ ''K'' @ [DQ] @ '') = mod.sys.ctrl.y '') scenario_A_text = 1"
  by code_simp

lemma A_connection:
  "count_sub ''(uExt(y='' scenario_A_text = 1"
  by code_simp

lemma A_connection_end:
  "count_sub (''sys.ctrl(uExt(y=sys_ctrl_u),activate(y=sys_ctrl_activate))) '' @ [DQ]
       @ ''Original model with overwrites'' @ [DQ] @ '';'' @ [NL]) scenario_A_text = 1"
  by code_simp

text \<open>
  Claim C4 (Scenario A). The Overwrite map has the one entry \<open>sys.ctrl\<close> with unit \<open>K\<close>,
  description \<open>setpoint\<close>, and a minimum and a maximum that are the floats printed as
  \<open>280.0\<close> and \<open>320.0\<close>; the Read map is empty and the model is \<open>Plant\<close>. Then the wrapper
  text is \<open>scenario_A_text\<close>, in which there is exactly one input-signal declaration, and
  it is the one of \<open>sys_ctrl_u\<close>, exactly one input-activation declaration, the one of
  \<open>sys_ctrl_activate\<close>, exactly one output declaration, bound to \<open>mod.sys.ctrl.y\<close>, and
  exactly one connection clause, which ends with the comment that there are overwrites.
\<close>

theorem scenario_A:
  assumes "repr mn = ''280.0''" and "repr mx = ''320.0''"
  shows "create_wrapper repr ''Plant''
     \<lparr>Overwrite = [(''sys.ctrl'', \<lparr>Unit = ''K'', Description = ''setpoint'',
                                   Minimum = Some mn, Maximum = Some mx\<rparr>)],
      Read = []\<rparr> = Inr ([], Some scenario_A_text) \<and>
   count_sub ''Modelica.Blocks.Interfaces.RealInput '' scenario_A_text = 1 \<and>
   count_sub ''Modelica.Blocks.Interfaces.RealInput sys_ctrl_u('' scenario_A_text = 1 \<and>
   count_sub ''Modelica.Blocks.Interfaces.BooleanInput '' scenario_A_text = 1 \<and>
   count_sub ''Modelica.Blocks.Interfaces.BooleanInput sys_ctrl_activate '' scenario_A_text = 1 \<and>
   count_sub ''Modelica.Blocks.Interfaces.RealOutput '' scenario_A_text = 1 \<and>
   count_sub (''Modelica.Blocks.Interfaces.RealOutput sys_ctrl_y(unit='' @ [DQ] @ ''K'' @ [DQ] @ '') = mod.sys.ctrl.y '') scenario_A_text = 1 \<and>
   count_sub ''(uExt(y='' scenario_A_text = 1 \<and>
   count_sub (''sys.ctrl(uExt(y=sys_ctrl_u),activate(y=sys_ctrl_activate))) '' @ [DQ]
       @ ''Original model with overwrites'' @ [DQ] @ '';'' @ [NL]) scenario_A_text = 1"
proof -
  have "create_wrapper repr ''Plant''
     \<lparr>Overwrite = [(''sys.ctrl'', \<lparr>Unit = ''K'', Description = ''setpoint'',
                                   Minimum = Some mn, Maximum = Some mx\<rparr>)],
      Read = []\<rparr> = Inr ([], Some scenario_A_text)"
    using assms
    by (simp add: create_wrapper_def keys_def overwrite_block_def output_block_def
        connect_block_def dict_get_def make_var_name_def format_float_def scenario_A_text_def)
  then show ?thesis
    using A_real_input A_real_input_sys_ctrl A_boolean_input A_boolean_input_sys_ctrl A_real_output A_real_output_bound A_connection A_connection_end
    by simp
qed

theorem scenario_A_witness:
  "create_wrapper (\<lambda>x. x) ''Plant''
     \<lparr>Overwrite = [(''sys.ctrl'', \<lparr>Unit = ''K'', Description = ''setpoint'',
                                   Minimum = Some ''280.0'', Maximum = Some ''320.0''\<rparr>)],
      Read = []\<rparr> = Inr ([], Some scenario_A_text) \<and>
   count_sub ''Modelica.Blocks.Interfaces.RealInput '' scenario_A_text = 1 \<and>
   count_sub ''Modelica.Blocks.Interfaces.RealInput sys_ctrl_u('' scenario_A_text = 1 \<and>
   count_sub ''Modelica.Blocks.Interfaces.BooleanInput '' scenario_A_text = 1 \<and>
   count_sub ''Modelica.Blocks.Interfaces.BooleanInput sys_ctrl_activate '' scenario_A_text = 1 \<and>
   count_sub ''Modelica.Blocks.Interfaces.RealOutput '' scenario_A_text = 1 \<and>
   count_sub (''Modelica.Blocks.Interfaces.RealOutput sys_ctrl_y(unit='' @ [DQ] @ ''K'' @ [DQ] @ '') = mod.sys.ctrl.y '') scenario_A_text = 1 \<and>
   count_sub ''(uExt(y='' scenario_A_text = 1 \<and>
   count_sub (''sys.ctrl(uExt(y=sys_ctrl_u),activate(y=sys_ctrl_activate))) '' @ [DQ]
       @ ''Original model with overwrites'' @ [DQ] @ '';'' @ [NL]) scenario_A_text = 1"
  using scenario_A [of "\<lambda>x. x" "''280.0''" "''320.0''"] by simp

text \<open>
  Claim C6. Synthesis returns \<^verbatim>\<open>None\<close> (the NoWrapper sentinel), and no text, if and only if
  both the Overwrite map and the Read map are empty. In that case no exception is raised and
  the one warning is issued; for every other input the result is a wrapper text, with no
  warning and no exception.
\<close>

theorem create_wrapper_sentinel:
  "(if Overwrite ins = [] \<and> Read ins = []
    then create_wrapper repr mp ins
           = Inr ([''No signal exchange block instances found in model.  Exporting model as is.''], None)
    else (\<exists>text. create_wrapper repr mp ins = Inr ([], Some text))) \<and>
   ((\<exists>w. create_wrapper repr mp ins = Inr (w, None)) = (Overwrite ins = [] \<and> Read ins = []))"
proof (cases "Overwrite ins = [] \<and> Read ins = []")
  case True
  then show ?thesis by (simp add: create_wrapper_def)
next
  case False
  from create_wrapper_text [OF this, of repr mp] obtain w
    where "create_wrapper repr mp ins = Inr ([], Some w)" by blast
  with False show ?thesis by auto
qed

section \<open>The name mangler: properties\<close>

text \<open>
  Claim C7. For every path, description and attribute, the name mangler replaces every dot
  of the path by an underscore and returns: for the role \<open>input_signal\<close> the mangled name,
  \<open>_u\<close>, the attribute and the description clause; for \<open>input_activate\<close> the mangled name,
  \<open>_activate\<close> and the description clause (the attribute is not used); for \<open>output\<close> the
  mangled name, \<open>_y\<close>, the attribute and the description clause. The description clause
  is a space and the description in double quotes, and is empty for the empty description.
  Every other role, and only such a role, fails with \<open>ValueError\<close> (the spec's
  InvalidRoleError).
\<close>

theorem make_var_name_forms:
  "(let name = map (\<lambda>c. if c = DOT then CHR ''_'' else c) path;
        clause = (if description = [] then [] else '' '' @ [DQ] @ description @ [DQ])
    in make_var_name path ''input_signal'' description attribute
         = Inr (name @ ''_u'' @ attribute @ clause) \<and>
       make_var_name path ''input_activate'' description attribute
         = Inr (name @ ''_activate'' @ clause) \<and>
       make_var_name path ''output'' description attribute
         = Inr (name @ ''_y'' @ attribute @ clause) \<and>
       ((role \<noteq> ''input_signal'' \<and> role \<noteq> ''input_activate'' \<and> role \<noteq> ''output'')
          = (make_var_name path role description attribute = Inl ValueError)))"
  by (simp add: make_var_name_def py_replace_map Let_def)

text \<open>
  Claim C10. Name mangling is not injective: the distinct paths \<open>a.b\<close> and \<open>a_b\<close> mangle,
  for every role, description and attribute, to the same result. Hence a Read map with
  these two basenames gives a wrapper text that declares the identifier \<open>a_b_y\<close> twice, and
  two KPI variables with these basenames put the identifier \<open>a_b_y\<close> twice into one
  signal-group list.
\<close>

theorem mangling_not_injective:
  "''a.b'' \<noteq> ''a_b'' \<and>
   make_var_name ''a.b'' role d a = make_var_name ''a_b'' role d a \<and>
   create_wrapper repr mp
     \<lparr>Overwrite = [],
      Read = [(''a.b'', \<lparr>Unit = ''W'', Description = ''p'', Minimum = None, Maximum = None\<rparr>),
              (''a_b'', \<lparr>Unit = ''W'', Description = ''q'', Minimum = None, Maximum = None\<rparr>)]\<rparr>
     = Inr ([], Some (''model wrapped '' @ [DQ] @ ''Wrapped model of '' @ mp @ [DQ] @ [NL, TAB]
         @ ''// Input overwrite'' @ [NL, TAB] @ ''// Out read'' @ [NL, TAB]
         @ ''Modelica.Blocks.Interfaces.RealOutput a_b_y(unit='' @ [DQ] @ ''W'' @ [DQ]
         @ '') = mod.a.b.y '' @ [DQ] @ ''p'' @ [DQ] @ '';'' @ [NL, TAB]
         @ ''Modelica.Blocks.Interfaces.RealOutput a_b_y(unit='' @ [DQ] @ ''W'' @ [DQ]
         @ '') = mod.a_b.y '' @ [DQ] @ ''q'' @ [DQ] @ '';'' @ [NL, TAB]
         @ ''// Original model'' @ [NL, TAB] @ mp @ '' mod('' @ [NL]
         @ '') '' @ [DQ] @ ''Original model without overwrites'' @ [DQ] @ '';'' @ [NL]
         @ ''end wrapped;'' @ [NL])) \<and>
   parse_XML limit float collide_tree
     = Inr (\<lparr>Overwrite = [], Read = []\<rparr>, [(''Power'', [''a_b_y'', ''a_b_y''])])"
proof -
  have 1: "make_var_name ''a.b'' role d a = make_var_name ''a_b'' role d a"
    by (simp add: make_var_name_def)
  have 2: "create_wrapper repr mp
     \<lparr>Overwrite = [],
      Read = [(''a.b'', \<lparr>Unit = ''W'', Description = ''p'', Minimum = None, Maximum = None\<rparr>),
              (''a_b'', \<lparr>Unit = ''W'', Description = ''q'', Minimum = None, Maximum = None\<rparr>)]\<rparr>
     = Inr ([], Some (''model wrapped '' @ [DQ] @ ''Wrapped model of '' @ mp @ [DQ] @ [NL, TAB]
         @ ''// Input overwrite'' @ [NL, TAB] @ ''// Out read'' @ [NL, TAB]
         @ ''Modelica.Blocks.Interfaces.RealOutput a_b_y(unit='' @ [DQ] @ ''W'' @ [DQ]
         @ '') = mod.a.b.y '' @ [DQ] @ ''p'' @ [DQ] @ '';'' @ [NL, TAB]
         @ ''Modelica.Blocks.Interfaces.RealOutput a_b_y(unit='' @ [DQ] @ ''W'' @ [DQ]
         @ '') = mod.a_b.y '' @ [DQ] @ ''q'' @ [DQ] @ '';'' @ [NL, TAB]
         @ ''// Original model'' @ [NL, TAB] @ mp @ '' mod('' @ [NL]
         @ '') '' @ [DQ] @ ''Original model without overwrites'' @ [DQ] @ '';'' @ [NL]
         @ ''end wrapped;'' @ [NL]))"
    by (simp add: create_wrapper_def keys_def output_block_def dict_get_def make_var_name_def)
  have 3: "parse_XML limit float collide_tree
     = Inr (\<lparr>Overwrite = [], Read = []\<rparr>, [(''Power'', [''a_b_y'', ''a_b_y''])])"
    by (simp add: parse_XML_def collide_tree_def iter_tag_def parse_var_def KPI_def READ_def
        OVERWRITE_def process_KPI_def signal_key_def bind_string_def find_el_def found_def
        dict_get_def py_split_def zone_types_def basename_of_def make_var_name_def)
  show ?thesis using 1 2 3 by simp
qed

end
